theory Spec2Isabelle
  imports Complex_Main "HOL-Library.Sublist" "HOL-Library.Multiset" "HOL-Library.AList"
begin

section \<open>Python values, strings and exceptions\<close>

text \<open>
  A Python string is modelled as a HOL string. The worked examples are ASCII; the few
  non-ASCII characters of the source's string literals are written as their UTF-8 bytes.
  Python's \<open>str.lower\<close>, \<open>str.upper\<close> and \<open>str.strip\<close> follow the
  Unicode tables, which are not part of the repository: they are parameters of the model
  (the record \<open>pystr\<close> below), and every property is stated for any choice of them.
\<close>

datatype exc_kind =
    TypeError | ValueError | JSONDecodeError | AttributeError | KeyError | IndexError
  | OtherError string

text \<open>An exception: its class and the text \<open>str(e)\<close>.\<close>

datatype exn = Exn exc_kind string

fun exn_str :: "exn \<Rightarrow> string" where
  "exn_str (Exn k m) = m"

fun exn_kind :: "exn \<Rightarrow> exc_kind" where
  "exn_kind (Exn k m) = k"

record pystr =
  str_lower :: "string \<Rightarrow> string"
  str_upper :: "string \<Rightarrow> string"
  str_strip :: "string \<Rightarrow> string"

text \<open>
  What the three operations do on ASCII text: the letters A to Z and a to z are mapped to
  each other and every other character is kept; the whitespace is TAB, LF, VT, FF, CR,
  FS, GS, RS, US and the space. \<open>ascii_ops\<close> is the choice of parameters that does this
  on every string; it is Python's on the strings of \<open>is_ascii\<close> characters.
\<close>

definition is_ascii :: "char \<Rightarrow> bool" where
  "is_ascii c = ((of_char c :: nat) < 128)"

definition ascii_lower_char :: "char \<Rightarrow> char" where
  "ascii_lower_char c =
     (if (65::nat) \<le> of_char c \<and> of_char c \<le> (90::nat) then char_of (of_char c + (32::nat)) else c)"

definition ascii_upper_char :: "char \<Rightarrow> char" where
  "ascii_upper_char c =
     (if (97::nat) \<le> of_char c \<and> of_char c \<le> (122::nat) then char_of (of_char c - (32::nat)) else c)"

definition ascii_lower :: "string \<Rightarrow> string" where
  "ascii_lower s = map ascii_lower_char s"

definition ascii_upper :: "string \<Rightarrow> string" where
  "ascii_upper s = map ascii_upper_char s"

definition ascii_isspace :: "char \<Rightarrow> bool" where
  "ascii_isspace c = (let n = (of_char c :: nat) in (9 \<le> n \<and> n \<le> 13) \<or> (28 \<le> n \<and> n \<le> 32))"

definition ascii_strip :: "string \<Rightarrow> string" where
  "ascii_strip s = rev (dropWhile ascii_isspace (rev (dropWhile ascii_isspace s)))"

definition ascii_ops :: pystr where
  "ascii_ops = \<lparr>str_lower = ascii_lower, str_upper = ascii_upper, str_strip = ascii_strip\<rparr>"

text \<open>Python's \<open>w in t\<close> on strings: \<open>w\<close> occurs in \<open>t\<close> as a contiguous block.\<close>

definition str_in :: "string \<Rightarrow> string \<Rightarrow> bool" where
  "str_in w t = sublist w t"

section \<open>Guardrail: \<open>sanitize_input\<close> (Agents/guardrails.py)\<close>

definition banned :: "string list" where
  "banned = [''delete'', ''drop'', ''sudo'', ''hack'', ''rm -rf'', ''password'', ''api_key'']"

text \<open>The message of the ValueError; it starts with a warning sign (six UTF-8 bytes).\<close>

definition unsafe_msg :: string where
  "unsafe_msg =
     [CHR 0xE2, CHR 0x9A, CHR 0xA0, CHR 0xEF, CHR 0xB8, CHR 0x8F] @ '' Unsafe or disallowed input detected.''"

text \<open>The loop over \<open>banned\<close>: the first word found raises; falling through returns.\<close>

fun sanitize_loop :: "pystr \<Rightarrow> string list \<Rightarrow> string \<Rightarrow> exn + string" where
  "sanitize_loop P [] text = Inr (str_strip P text)"
| "sanitize_loop P (word # rest) text =
     (if str_in (str_lower P word) (str_lower P text) then Inl (Exn ValueError unsafe_msg)
      else sanitize_loop P rest text)"

definition sanitize_input :: "pystr \<Rightarrow> string \<Rightarrow> exn + string" where
  "sanitize_input P text = sanitize_loop P banned text"

section \<open>Query routing (main.py)\<close>

datatype mode = Resume | Policy | Onboarding | Unknown

text \<open>What pressing Submit does: stop with a warning, stop with an error, or set the mode.\<close>

datatype submit_result = StopWarning string | StopError string | SetMode mode

definition any_in :: "string list \<Rightarrow> string \<Rightarrow> bool" where
  "any_in ks q = list_ex (\<lambda>k. str_in k q) ks"

definition route :: "string \<Rightarrow> mode" where
  "route q =
     (if any_in [''resume'', ''screen'', ''candidate'', ''cv''] q then Resume
      else if any_in [''policy'', ''leave'', ''vacation'', ''rules'', ''payroll'', ''salary''] q then Policy
      else if any_in [''onboard'', ''joining'', ''orientation'', ''welcome''] q then Onboarding
      else Unknown)"

definition submit :: "pystr \<Rightarrow> string \<Rightarrow> submit_result" where
  "submit P query =
     (if str_strip P query = [] then StopWarning ''Please enter a valid query.''
      else case sanitize_input P query of
             Inl e \<Rightarrow> StopError (exn_str e)
           | Inr sanitized_query \<Rightarrow> SetMode (route (str_lower P sanitized_query)))"

section \<open>JSON values and dictionaries\<close>

text \<open>
  What \<open>json.loads\<close> returns. A float carries the exact rational value of a finite
  double. A Python dict is an association list read with \<open>map_of\<close> and written with
  \<open>AList.update\<close> (an existing key keeps its place, a new key goes last).
\<close>

datatype json =
    JNull | JBool bool | JInt int | JFloat rat | JStr string
  | JArr "json list" | JObj "(string \<times> json) list"

type_synonym dict = "(string \<times> json) list"

definition filename_of :: "dict \<Rightarrow> json option" where
  "filename_of d = map_of d ''filename''"

text \<open>
  \<open>parsed["filename"] = v\<close>: item assignment works on a dict only. The texts of the
  errors that the Python runtime raises are abbreviated here and below; no property
  depends on them.
\<close>

fun set_filename :: "json \<Rightarrow> string \<Rightarrow> exn + dict" where
  "set_filename (JObj parsed) v = Inr (AList.update ''filename'' (JStr v) parsed)"
| "set_filename (JArr xs) v = Inl (Exn TypeError ''list indices must be integers or slices, not str'')"
| "set_filename j v = Inl (Exn TypeError ''object does not support item assignment'')"

section \<open>Resume screening (Agents/resume_screening_app.py)\<close>

subsection \<open>External collaborators\<close>

text \<open>
  The document readers, the language-model client and the json module are outside the
  repository. They are parameters of the model. A call that has an effect takes the state
  of the outside world and returns the new one with its result, so two calls on the same
  file or with the same request may answer differently.
\<close>

record 'f uploaded_file =
  name :: string
  stream :: 'f

record request =
  model :: string
  messages :: "(string \<times> string) list"
  response_format :: "string option"

record ('f, 'w) env = pystr +
  pdf_page_texts :: "'f \<Rightarrow> 'w \<Rightarrow> string list \<times> 'w"
  ocr_image_texts :: "'f \<Rightarrow> 'w \<Rightarrow> (exn + string list) \<times> 'w"
  docx_paragraphs :: "'f \<Rightarrow> 'w \<Rightarrow> (exn + string list) \<times> 'w"
  responses_create :: "request \<Rightarrow> 'w \<Rightarrow> (exn + string) \<times> 'w"
  chat_completions_create :: "request \<Rightarrow> 'w \<Rightarrow> (exn + string) \<times> 'w"
  json_loads :: "string \<Rightarrow> exn + json"
  json_dumps :: "json \<Rightarrow> string"

text \<open>
  \<^item> \<open>pdf_page_texts\<close>: the page texts pdfplumber yields before it raises, if it does
    (the source swallows that exception and keeps the text read so far);
  \<^item> \<open>ocr_image_texts\<close>: rewinding the file, rendering it and reading each image;
  \<^item> \<open>docx_paragraphs\<close>: the paragraph texts of the document;
  \<^item> \<open>responses_create\<close>, \<open>chat_completions_create\<close>: the two provider calls, each with
    the reading of the text out of the response;
  \<^item> \<open>json_loads\<close>: it raises \<open>JSONDecodeError\<close> on a text that is not JSON, and may
    raise other errors (a \<open>ValueError\<close> on an integer of too many digits, for one).
\<close>

subsection \<open>Text extraction\<close>

definition extract_text_from_pdf :: "('f, 'w) env \<Rightarrow> 'f \<Rightarrow> 'w \<Rightarrow> string \<times> 'w" where
  "extract_text_from_pdf env file w =
     (case pdf_page_texts env file w of
        (pages, w1) \<Rightarrow>
          let text = concat (map (\<lambda>t. t @ [CHR 0x0A]) (filter (\<lambda>t. t \<noteq> []) pages)) in
          if str_strip env text = [] then
            (case ocr_image_texts env file w1 of
               (Inl e, w2) \<Rightarrow> (str_strip env [], w2)
             | (Inr imgs, w2) \<Rightarrow> (str_strip env (text @ concat imgs), w2))
          else (str_strip env text, w1))"

text \<open>\<open>"\n".join\<close>\<close>

fun join_lines :: "string list \<Rightarrow> string" where
  "join_lines [] = []"
| "join_lines [p] = p"
| "join_lines (p # ps) = p @ [CHR 0x0A] @ join_lines ps"

definition extract_text_from_docx :: "('f, 'w) env \<Rightarrow> 'f \<Rightarrow> 'w \<Rightarrow> (exn + string) \<times> 'w" where
  "extract_text_from_docx env file w =
     (case docx_paragraphs env file w of
        (Inl e, w1) \<Rightarrow> (Inl e, w1)
      | (Inr paragraphs, w1) \<Rightarrow> (Inr (join_lines paragraphs), w1))"

text \<open>The expression both passes use: by the file name's ending.\<close>

definition extract_text :: "('f, 'w) env \<Rightarrow> 'f uploaded_file \<Rightarrow> 'w \<Rightarrow> (exn + string) \<times> 'w" where
  "extract_text env file w =
     (if suffix ''.pdf'' (name file)
      then (case extract_text_from_pdf env (stream file) w of (text, w1) \<Rightarrow> (Inr text, w1))
      else extract_text_from_docx env (stream file) w)"

subsection \<open>The evaluator: \<open>analyze_resume_with_llm\<close>\<close>

definition prompt :: "string \<Rightarrow> string" where
  \<open>prompt role =
     ''\<newline>You are an expert HR recruiter assistant.\<newline>Candidate is applying for '' @ role
     @ ''.\<newline>Below is their resume text.\<newline>\<newline>''
     @ ''1. Extract: Age, Education, Skills, Projects, Certifications.\<newline>''
     @ ''2. Score each (0'' @ [CHR 0xE2, CHR 0x80, CHR 0x93] @ ''10) for relevance to '' @ role
     @ ''.\<newline>3. Compute weighted average: Skills40 + Projects30 + Education20 + Certs10.\<newline>''
     @ ''4. Return JSON only:\<newline>''
     @ ''{"weighted_average": float, "verdict": "PASS"/"FAIL", "reasoning": "string"}\<newline>''\<close>

definition user_content :: "string \<Rightarrow> string \<Rightarrow> string" where
  "user_content role resume_text =
     prompt role @ ''\<newline>Resume:\<newline>'' @ take 8000 resume_text"

definition llm_messages :: "string \<Rightarrow> string \<Rightarrow> (string \<times> string) list" where
  "llm_messages role resume_text =
     [(''system'', ''Return valid JSON only.''), (''user'', user_content role resume_text)]"

definition error_verdict :: "exn \<Rightarrow> json" where
  "error_verdict e =
     JObj [(''weighted_average'', JInt 0), (''verdict'', JStr ''FAIL''),
           (''reasoning'', JStr (''Error: '' @ exn_str e))]"

text \<open>
  The \<open>try\<close> has two handlers side by side: \<open>except TypeError\<close> runs the chat call, and
  \<open>except Exception\<close> covers the \<open>try\<close> body only, so what the chat call raises leaves
  the function.
\<close>

definition responses_request :: "string \<Rightarrow> string \<Rightarrow> request" where
  "responses_request role resume_text =
     \<lparr>model = ''gpt-4o-mini'', messages = llm_messages role resume_text,
      response_format = Some ''json_object''\<rparr>"

definition chat_request :: "string \<Rightarrow> string \<Rightarrow> request" where
  "chat_request role resume_text =
     \<lparr>model = ''gpt-4o-mini'', messages = llm_messages role resume_text,
      response_format = None\<rparr>"

definition analyze_resume_with_llm ::
    "('f, 'w) env \<Rightarrow> string \<Rightarrow> string \<Rightarrow> 'w \<Rightarrow> (exn + string) \<times> 'w" where
  "analyze_resume_with_llm env role resume_text w =
     (case responses_create env (responses_request role resume_text) w of
        (Inr output_text, w1) \<Rightarrow> (Inr output_text, w1)
      | (Inl e, w1) \<Rightarrow>
          if exn_kind e = TypeError then
            (case chat_completions_create env (chat_request role resume_text) w1 of
               (Inr content, w2) \<Rightarrow> (Inr content, w2)
             | (Inl e2, w2) \<Rightarrow> (Inl e2, w2))
          else (Inr (json_dumps env (error_verdict e)), w1))"

subsection \<open>The two passes of \<open>run\<close> (HR manager mode)\<close>

definition parse_failed_verdict :: "string \<Rightarrow> dict" where
  "parse_failed_verdict filename =
     [(''filename'', JStr filename), (''weighted_average'', JInt 0), (''verdict'', JStr ''FAIL''),
      (''reasoning'', JStr ''Resume could not be parsed after two attempts.'')]"

definition unreadable_verdict :: "string \<Rightarrow> dict" where
  "unreadable_verdict filename =
     [(''filename'', JStr filename), (''weighted_average'', JInt 0), (''verdict'', JStr ''FAIL''),
      (''reasoning'', JStr ''Unreadable or empty resume text (after retry).'')]"

text \<open>
  Pass 1, the loop over \<open>uploaded_files\<close> with its two accumulators. Only
  \<open>JSONDecodeError\<close> is caught; any other exception ends the run.
\<close>

fun pass1 ::
    "('f, 'w) env \<Rightarrow> string \<Rightarrow> 'f uploaded_file list \<Rightarrow> dict list \<Rightarrow> 'f uploaded_file list \<Rightarrow> 'w
     \<Rightarrow> (exn + dict list \<times> 'f uploaded_file list) \<times> 'w" where
  "pass1 env role [] results failed_files w = (Inr (results, failed_files), w)"
| "pass1 env role (file # rest) results failed_files w =
     (case extract_text env file w of
        (Inl e, w1) \<Rightarrow> (Inl e, w1)
      | (Inr text, w1) \<Rightarrow>
          if str_strip env text \<noteq> [] then
            (case analyze_resume_with_llm env role text w1 of
               (Inl e, w2) \<Rightarrow> (Inl e, w2)
             | (Inr llm_output, w2) \<Rightarrow>
                 (case json_loads env llm_output of
                    Inl e \<Rightarrow>
                      if exn_kind e = JSONDecodeError
                      then pass1 env role rest results (failed_files @ [file]) w2
                      else (Inl e, w2)
                  | Inr parsed \<Rightarrow>
                      (case set_filename parsed (name file) of
                         Inl e \<Rightarrow> (Inl e, w2)
                       | Inr parsed' \<Rightarrow> pass1 env role rest (results @ [parsed']) failed_files w2)))
          else pass1 env role rest results (failed_files @ [file]) w1)"

text \<open>Pass 2, the loop over \<open>failed_files\<close>: every file gets a verdict.\<close>

fun pass2 ::
    "('f, 'w) env \<Rightarrow> string \<Rightarrow> 'f uploaded_file list \<Rightarrow> dict list \<Rightarrow> 'w
     \<Rightarrow> (exn + dict list) \<times> 'w" where
  "pass2 env role [] results w = (Inr results, w)"
| "pass2 env role (file # rest) results w =
     (case extract_text env file w of
        (Inl e, w1) \<Rightarrow> (Inl e, w1)
      | (Inr text, w1) \<Rightarrow>
          if str_strip env text \<noteq> [] then
            (case analyze_resume_with_llm env role text w1 of
               (Inl e, w2) \<Rightarrow> (Inl e, w2)
             | (Inr llm_output, w2) \<Rightarrow>
                 (case json_loads env llm_output of
                    Inl e \<Rightarrow>
                      if exn_kind e = JSONDecodeError
                      then pass2 env role rest (results @ [parse_failed_verdict (name file)]) w2
                      else (Inl e, w2)
                  | Inr parsed \<Rightarrow>
                      (case set_filename parsed (name file) of
                         Inl e \<Rightarrow> (Inl e, w2)
                       | Inr parsed' \<Rightarrow> pass2 env role rest (results @ [parsed']) w2)))
          else pass2 env role rest (results @ [unreadable_verdict (name file)]) w1)"

definition run_screening ::
    "('f, 'w) env \<Rightarrow> string \<Rightarrow> 'f uploaded_file list \<Rightarrow> 'w \<Rightarrow> (exn + dict list) \<times> 'w" where
  "run_screening env role uploaded_files w =
     (case pass1 env role uploaded_files [] [] w of
        (Inl e, w1) \<Rightarrow> (Inl e, w1)
      | (Inr (results, failed_files), w1) \<Rightarrow>
          if failed_files \<noteq> [] then pass2 env role failed_files results w1
          else (Inr results, w1))"

subsection \<open>What one attempt on one file observes\<close>

text \<open>
  Both loops make the same attempt on a file: extract, and if there is text, evaluate and
  parse. The functions below name its outcome, so that a property can speak about what
  happened to a file in each pass. They are not part of the program; the lemmas
  \<open>pass1_attempts\<close> and \<open>pass2_attempts\<close> tie the loops to them.
\<close>

datatype outcome = Unreadable | ParseFailed | Parsed dict

fun is_parsed :: "outcome \<Rightarrow> bool" where
  "is_parsed (Parsed d) = True"
| "is_parsed _ = False"

definition attempt ::
    "('f, 'w) env \<Rightarrow> string \<Rightarrow> 'f uploaded_file \<Rightarrow> 'w \<Rightarrow> (exn + outcome) \<times> 'w" where
  "attempt env role file w =
     (case extract_text env file w of
        (Inl e, w1) \<Rightarrow> (Inl e, w1)
      | (Inr text, w1) \<Rightarrow>
          if str_strip env text \<noteq> [] then
            (case analyze_resume_with_llm env role text w1 of
               (Inl e, w2) \<Rightarrow> (Inl e, w2)
             | (Inr llm_output, w2) \<Rightarrow>
                 (case json_loads env llm_output of
                    Inl e \<Rightarrow>
                      if exn_kind e = JSONDecodeError then (Inr ParseFailed, w2) else (Inl e, w2)
                  | Inr parsed \<Rightarrow>
                      (case set_filename parsed (name file) of
                         Inl e \<Rightarrow> (Inl e, w2)
                       | Inr parsed' \<Rightarrow> (Inr (Parsed parsed'), w2))))
          else (Inr Unreadable, w1))"

fun attempts ::
    "('f, 'w) env \<Rightarrow> string \<Rightarrow> 'f uploaded_file list \<Rightarrow> 'w \<Rightarrow> (exn + outcome list) \<times> 'w" where
  "attempts env role [] w = (Inr [], w)"
| "attempts env role (file # rest) w =
     (case attempt env role file w of
        (Inl e, w1) \<Rightarrow> (Inl e, w1)
      | (Inr out, w1) \<Rightarrow>
          (case attempts env role rest w1 of
             (Inl e, w2) \<Rightarrow> (Inl e, w2)
           | (Inr outs, w2) \<Rightarrow> (Inr (out # outs), w2)))"

text \<open>The verdicts pass 1 records, and the files it puts in the retry set.\<close>

fun parsed_of :: "outcome list \<Rightarrow> dict list" where
  "parsed_of [] = []"
| "parsed_of (Parsed d # outs) = d # parsed_of outs"
| "parsed_of (_ # outs) = parsed_of outs"

fun retry_set :: "'a list \<Rightarrow> outcome list \<Rightarrow> 'a list" where
  "retry_set (f # fs) (out # outs) = (if is_parsed out then retry_set fs outs else f # retry_set fs outs)"
| "retry_set _ _ = []"

text \<open>The verdict pass 2 records for a file, by the outcome of its second attempt.\<close>

fun terminal :: "'f uploaded_file \<Rightarrow> outcome \<Rightarrow> dict" where
  "terminal file (Parsed d) = d"
| "terminal file ParseFailed = parse_failed_verdict (name file)"
| "terminal file Unreadable = unreadable_verdict (name file)"

text \<open>The place in the retry set of the file at place \<open>i\<close> of the batch.\<close>

definition retry_pos :: "outcome list \<Rightarrow> nat \<Rightarrow> nat" where
  "retry_pos outs i = length (filter (\<lambda>out. \<not> is_parsed out) (take i outs))"

subsection \<open>Sorting the results for display\<close>

text \<open>
  \<open>df.sort_values(by="weighted_average", ascending=False)\<close> is a pandas call. It is
  modelled where every row carries a number under \<open>weighted_average\<close>: the rows come out
  by decreasing key, rows with equal keys in their given order (pandas does not fix that
  order). On other result sets pandas orders missing cells last or raises; the model
  answers \<open>None\<close> there.
\<close>

fun number_of :: "json \<Rightarrow> rat option" where
  "number_of (JInt i) = Some (of_int i)"
| "number_of (JFloat r) = Some r"
| "number_of _ = None"

definition weighted_average_of :: "dict \<Rightarrow> rat option" where
  "weighted_average_of d =
     (case map_of d ''weighted_average'' of None \<Rightarrow> None | Some j \<Rightarrow> number_of j)"

definition sort_by_weighted_average :: "dict list \<Rightarrow> dict list option" where
  "sort_by_weighted_average results =
     (if list_all (\<lambda>d. weighted_average_of d \<noteq> None) results
      then Some (sort_key (\<lambda>d. - the (weighted_average_of d)) results)
      else None)"

section \<open>Bulk onboarding upload (main.py)\<close>

text \<open>
  The uploaded table after pandas has read it: its column names and its rows, a row
  giving the cell of each column. The type of cells and pandas' conversion of a cell to
  a string (\<open>astype(str)\<close>) are parameters, as is \<open>str.upper\<close>.
\<close>

record 'c dataframe =
  columns :: "string list"
  rows :: "(string \<Rightarrow> 'c) list"

datatype 'c bulk_result =
    BulkError string
  | BulkWarning string
  | BulkFound "(string \<Rightarrow> 'c) list"

definition missing_verdict_msg :: string where
  \<open>missing_verdict_msg =
     [CHR 0xE2, CHR 0x9D, CHR 0x8C] @ '' The uploaded file must include a 'verdict' column.''\<close>

text \<open>
  The upload handler up to the list of passed candidates. Reading the file may raise;
  the handler's \<open>except Exception\<close> reports that.
\<close>

definition bulk_upload ::
    "pystr \<Rightarrow> ('c \<Rightarrow> string) \<Rightarrow> exn + 'c dataframe \<Rightarrow> 'c bulk_result" where
  "bulk_upload P astype_str uploaded =
     (case uploaded of
        Inl e \<Rightarrow> BulkError (''Error processing file: '' @ exn_str e)
      | Inr df \<Rightarrow>
          if ''verdict'' \<notin> set (columns df) then BulkError missing_verdict_msg
          else
            let passed = filter (\<lambda>row. str_upper P (astype_str (row ''verdict'')) = ''PASS'') (rows df) in
            if passed = [] then BulkWarning ''No passed candidates found in this file.''
            else BulkFound passed)"

text \<open>The rows that go on to the notification step.\<close>

fun selected_rows :: "'c bulk_result \<Rightarrow> (string \<Rightarrow> 'c) list" where
  "selected_rows (BulkFound passed) = passed"
| "selected_rows _ = []"

section \<open>Onboarding of selected candidates (Agents/onboarding_agent.py)\<close>

subsection \<open>Python values\<close>

text \<open>
  A screening result is a value as \<open>json.loads\<close> gives it, \<open>JNull\<close> standing for
  \<open>None\<close>. Truthiness and \<open>or\<close> are Python's.
\<close>

fun truthy :: "json \<Rightarrow> bool" where
  "truthy JNull = False"
| "truthy (JBool b) = b"
| "truthy (JInt i) = (i \<noteq> 0)"
| "truthy (JFloat r) = (r \<noteq> 0)"
| "truthy (JStr s) = (s \<noteq> [])"
| "truthy (JArr xs) = (xs \<noteq> [])"
| "truthy (JObj kvs) = (kvs \<noteq> [])"

text \<open>\<open>x.get(key, default)\<close>: only a dict has the method.\<close>

fun py_get :: "json \<Rightarrow> string \<Rightarrow> json \<Rightarrow> exn + json" where
  "py_get (JObj d) k dflt = Inr (case map_of d k of None \<Rightarrow> dflt | Some v \<Rightarrow> v)"
| "py_get j k dflt = Inl (Exn AttributeError ''object has no attribute get'')"

text \<open>\<open>o or d\<close> for an optional string \<open>o\<close>: \<open>None\<close> and the empty string are falsy.\<close>

fun opt_or :: "string option \<Rightarrow> string \<Rightarrow> string" where
  "opt_or None d = d"
| "opt_or (Some s) d = (if s \<noteq> [] then s else d)"

text \<open>\<open>s.split(sep)[0]\<close> and \<open>s.replace(a, b)\<close> for one-character arguments.\<close>

definition split_first :: "char \<Rightarrow> string \<Rightarrow> string" where
  "split_first sep s = takeWhile (\<lambda>c. c \<noteq> sep) s"

definition replace_char :: "char \<Rightarrow> char \<Rightarrow> string \<Rightarrow> string" where
  "replace_char a b s = map (\<lambda>c. if c = a then b else c) s"

subsection \<open>External collaborators\<close>

text \<open>
  Parameters of the model: Python's \<open>str\<close> on numbers, lists and dicts, \<open>str.title\<close>,
  the two regular-expression calls, \<open>str.format\<close> with its keyword arguments, and the
  two functions of the module that reach the language model and the mail server. Each
  of the last two takes and returns the state of the outside world, and any of the calls
  that can raise in Python may raise here.
\<close>

record 'w onboard_env = pystr +
  py_repr :: "json \<Rightarrow> string"
  str_title :: "string \<Rightarrow> string"
  re_search_email :: "string \<Rightarrow> string option"
  re_sub_username :: "string \<Rightarrow> string"
  str_format :: "string \<Rightarrow> (string \<times> json) list \<Rightarrow> exn + string"
  generate_onboarding_plan_text :: "json \<Rightarrow> json \<Rightarrow> string option \<Rightarrow> 'w \<Rightarrow> (exn + string) \<times> 'w"
  send_email_smtp :: "json \<Rightarrow> string \<Rightarrow> string \<Rightarrow> 'w \<Rightarrow> (exn + dict) \<times> 'w"

record options =
  default_start_date :: "string option"
  send_email :: bool
  email_subject_template :: "string option"
  email_body_template :: "string option"

definition py_str :: "'w onboard_env \<Rightarrow> json \<Rightarrow> string" where
  "py_str env v =
     (case v of
        JStr s \<Rightarrow> s
      | JNull \<Rightarrow> ''None''
      | JBool b \<Rightarrow> (if b then ''True'' else ''False'')
      | _ \<Rightarrow> py_repr env v)"

subsection \<open>Utilities\<close>

definition extract_email_from_text :: "'w onboard_env \<Rightarrow> json \<Rightarrow> exn + json" where
  "extract_email_from_text env txt =
     (if \<not> truthy txt then Inr JNull
      else case txt of
             JStr s \<Rightarrow> Inr (case re_search_email env s of None \<Rightarrow> JNull | Some m \<Rightarrow> JStr m)
           | _ \<Rightarrow> Inl (Exn TypeError ''expected string or bytes-like object''))"

definition guess_email_from_filename :: "'w onboard_env \<Rightarrow> json \<Rightarrow> string" where
  "guess_email_from_filename env filename =
     (let username = split_first CHR ''.'' (split_first CHR ''@'' (py_str env filename));
          username = str_lower env (re_sub_username env username);
          username = (if username \<noteq> [] then username else ''candidate'')
      in username @ ''@'' @ ''example.com'')"

subsection \<open>Sequencing calls that may raise\<close>

definition ret :: "'a \<Rightarrow> 'w \<Rightarrow> (exn + 'a) \<times> 'w" where
  "ret a w = (Inr a, w)"

definition lift :: "exn + 'a \<Rightarrow> 'w \<Rightarrow> (exn + 'a) \<times> 'w" where
  "lift r w = (r, w)"

definition bnd ::
    "('w \<Rightarrow> (exn + 'a) \<times> 'w) \<Rightarrow> ('a \<Rightarrow> 'w \<Rightarrow> (exn + 'b) \<times> 'w) \<Rightarrow> 'w \<Rightarrow> (exn + 'b) \<times> 'w" where
  "bnd m f w = (case m w of (Inl e, w1) \<Rightarrow> (Inl e, w1) | (Inr a, w1) \<Rightarrow> f a w1)"

subsection \<open>\<open>onboard_selected_candidates\<close>\<close>

definition name_guess_of :: "'w onboard_env \<Rightarrow> json \<Rightarrow> json \<Rightarrow> exn + json" where
  "name_guess_of env item filename =
     (case py_get item ''name'' JNull of
        Inl e \<Rightarrow> Inl e
      | Inr n \<Rightarrow>
          if truthy n then Inr n
          else case filename of
                 JStr f \<Rightarrow>
                   Inr (JStr (str_title env (replace_char CHR ''_'' CHR '' '' (split_first CHR ''.'' f))))
               | _ \<Rightarrow> Inl (Exn AttributeError ''object has no attribute split''))"

definition role_of :: "json \<Rightarrow> exn + json" where
  "role_of item =
     (case py_get item ''role'' JNull of
        Inl e \<Rightarrow> Inl e
      | Inr r \<Rightarrow>
          if truthy r then Inr r
          else case py_get item ''applied_role'' JNull of
                 Inl e \<Rightarrow> Inl e
               | Inr a \<Rightarrow> Inr (if truthy a then a else JStr ''the role''))"

definition candidate_email_of :: "'w onboard_env \<Rightarrow> json \<Rightarrow> json \<Rightarrow> exn + json" where
  "candidate_email_of env item filename =
     (case py_get item ''email'' JNull of
        Inl e \<Rightarrow> Inl e
      | Inr m \<Rightarrow>
          if truthy m then Inr m
          else case py_get item ''contact'' JNull of
                 Inl e \<Rightarrow> Inl e
               | Inr c \<Rightarrow>
                   if truthy c then Inr c
                   else case py_get item ''text'' (JStr []) of
                          Inl e \<Rightarrow> Inl e
                        | Inr txt \<Rightarrow>
                            (case extract_email_from_text env txt of
                               Inl e \<Rightarrow> Inl e
                             | Inr found \<Rightarrow>
                                 Inr (if truthy found then found
                                      else JStr (guess_email_from_filename env filename))))"

definition email_subject :: "'w onboard_env \<Rightarrow> options \<Rightarrow> json \<Rightarrow> string" where
  "email_subject env opts role =
     opt_or (email_subject_template opts) (''Onboarding: Welcome to '' @ py_str env role @ '' at Company'')"

definition email_body :: "'w onboard_env \<Rightarrow> options \<Rightarrow> json \<Rightarrow> json \<Rightarrow> string \<Rightarrow> exn + string" where
  "email_body env opts name_guess role plan_text =
     (if opt_or (email_body_template opts) [] \<noteq> [] then
        str_format env (opt_or (email_body_template opts) [])
          [(''name'', name_guess), (''role'', role),
           (''start_date'', JStr (opt_or (default_start_date opts) ''TBD'')),
           (''plan'', JStr plan_text)]
      else
        Inr (''Dear '' @ py_str env name_guess @ '',\<newline>\<newline>''
             @ ''Congratulations '' @ [CHR 0xE2, CHR 0x80, CHR 0x94] @ '' you have been selected for ''
             @ py_str env role @ ''.\<newline>\<newline>''
             @ ''Reporting date/time: ''
             @ opt_or (default_start_date opts) ''Please confirm availability'' @ ''\<newline>\<newline>''
             @ plan_text @ ''\<newline>\<newline>''
             @ ''Please reply to confirm your availability and if you have any questions.\<newline>\<newline>''
             @ ''Best,\<newline>HR Team''))"

text \<open>The sending step: the result of the send, or \<open>None\<close>, and the status.\<close>

definition deliver ::
    "'w onboard_env \<Rightarrow> options \<Rightarrow> json \<Rightarrow> string \<Rightarrow> string \<Rightarrow> 'w \<Rightarrow> (exn + json \<times> string) \<times> 'w" where
  "deliver env opts candidate_email subject body w =
     (if send_email opts then
        (case send_email_smtp env candidate_email subject body w of
           (Inl e, w1) \<Rightarrow> (Inl e, w1)
         | (Inr send_result, w1) \<Rightarrow>
             (Inr (JObj send_result,
                   if truthy (case map_of send_result ''ok'' of None \<Rightarrow> JNull | Some v \<Rightarrow> v)
                   then ''email_sent'' else ''email_failed''), w1))
      else (Inr (JNull, ''plan_generated''), w))"

text \<open>The \<open>try\<close> body after the verdict test, for a selected item.\<close>

definition candidate_entry ::
    "'w onboard_env \<Rightarrow> options \<Rightarrow> json \<Rightarrow> 'w \<Rightarrow> (exn + dict) \<times> 'w" where
  "candidate_entry env opts item =
     bnd (lift (py_get item ''filename'' (JStr ''unknown_file''))) (\<lambda>filename.
     bnd (lift (name_guess_of env item filename)) (\<lambda>name_guess.
     bnd (lift (role_of item)) (\<lambda>role.
     bnd (lift (candidate_email_of env item filename)) (\<lambda>candidate_email.
     bnd (generate_onboarding_plan_text env name_guess role (default_start_date opts)) (\<lambda>plan_text.
     bnd (lift (email_body env opts name_guess role plan_text)) (\<lambda>body.
     bnd (deliver env opts candidate_email (email_subject env opts role) body) (\<lambda>(send_result, status).
     ret [(''filename'', filename), (''name'', name_guess), (''email'', candidate_email),
          (''role'', role), (''plan'', JStr plan_text), (''email_status'', send_result),
          (''status'', JStr status)])))))))"

text \<open>The whole \<open>try\<close> body: \<open>None\<close> is the \<open>continue\<close> of an item that is not selected.\<close>

definition try_item ::
    "'w onboard_env \<Rightarrow> options \<Rightarrow> json \<Rightarrow> 'w \<Rightarrow> (exn + dict option) \<times> 'w" where
  "try_item env opts item =
     bnd (lift (py_get item ''verdict'' (JStr []))) (\<lambda>verdict.
       if str_upper env (py_str env verdict) \<noteq> ''PASS'' then ret None
       else bnd (candidate_entry env opts item) (\<lambda>entry. ret (Some entry)))"

definition error_entry :: "json \<Rightarrow> exn \<Rightarrow> dict" where
  "error_entry filename e =
     [(''filename'', filename), (''status'', JStr ''error''), (''error'', JStr (exn_str e))]"

text \<open>
  The loop. The handler of \<open>except Exception\<close> reads the item's filename again; what that
  raises leaves the function.
\<close>

fun onboard_loop ::
    "'w onboard_env \<Rightarrow> options \<Rightarrow> json list \<Rightarrow> dict list \<Rightarrow> 'w \<Rightarrow> (exn + dict list) \<times> 'w" where
  "onboard_loop env opts [] processed w = (Inr processed, w)"
| "onboard_loop env opts (item # rest) processed w =
     (case try_item env opts item w of
        (Inr None, w1) \<Rightarrow> onboard_loop env opts rest processed w1
      | (Inr (Some entry), w1) \<Rightarrow> onboard_loop env opts rest (processed @ [entry]) w1
      | (Inl e, w1) \<Rightarrow>
          (case py_get item ''filename'' (JStr ''unknown'') of
             Inl e2 \<Rightarrow> (Inl e2, w1)
           | Inr filename \<Rightarrow> onboard_loop env opts rest (processed @ [error_entry filename e]) w1))"

definition onboard_selected_candidates ::
    "'w onboard_env \<Rightarrow> options \<Rightarrow> json list \<Rightarrow> 'w \<Rightarrow> (exn + dict list) \<times> 'w" where
  "onboard_selected_candidates env opts screening_results w =
     onboard_loop env opts screening_results [] w"

section \<open>Notions the specification uses\<close>

text \<open>
  These follow the specification's wording, not the code. A word occurs in a text
  case-insensitively, under a given lower-casing, when the lower-cased word is a block of
  the lower-cased text; a string equals "PASS" case-insensitively, under a given
  upper-casing, when its upper-casing is "PASS". On ASCII text the two have a reading
  that does not mention the case mapping: some block of the text equals the word up to
  the case of the letters A to Z, and the string equals "PASS" up to that case.
\<close>

definition occurs_ignoring_case :: "(string \<Rightarrow> string) \<Rightarrow> string \<Rightarrow> string \<Rightarrow> bool" where
  "occurs_ignoring_case lowercase v t \<longleftrightarrow> (\<exists>ps ss. lowercase t = ps @ lowercase v @ ss)"

definition is_pass_ignoring_case :: "(string \<Rightarrow> string) \<Rightarrow> string \<Rightarrow> bool" where
  "is_pass_ignoring_case uppercase s \<longleftrightarrow> uppercase s = ''PASS''"

definition ascii_occurs_ignoring_case :: "string \<Rightarrow> string \<Rightarrow> bool" where
  "ascii_occurs_ignoring_case v t \<longleftrightarrow>
     (\<exists>ps u ss. t = ps @ u @ ss \<and> ascii_lower u = ascii_lower v)"

definition ascii_equals_ignoring_case :: "string \<Rightarrow> string \<Rightarrow> bool" where
  "ascii_equals_ignoring_case a b \<longleftrightarrow> ascii_lower a = ascii_lower b"

text \<open>A choice of parameters does on ASCII text what Python does.\<close>

definition ascii_faithful :: "'a pystr_scheme \<Rightarrow> bool" where
  "ascii_faithful P \<longleftrightarrow>
     (\<forall>s. list_all is_ascii s \<longrightarrow>
          str_lower P s = ascii_lower s \<and> str_upper P s = ascii_upper s \<and>
          str_strip P s = ascii_strip s)"



section \<open>A worked batch\<close>

text \<open>
  A batch of four resumes run against canned collaborators. A file's stream is the list
  of its page (or paragraph) texts, the state of the world is the number of provider calls
  made so far, and the provider answers the n-th call with the n-th text of
  \<open>demo_replies\<close>. \<open>demo_loads\<close> is \<open>json.loads\<close> on the texts that occur here.
\<close>

definition demo_good_a :: string where
  \<open>demo_good_a = ''{"weighted_average": 7.5, "verdict": "PASS", "reasoning": "Strong Python"}''\<close>

definition demo_good_d :: string where
  \<open>demo_good_d = ''{"weighted_average": 3, "verdict": "FAIL", "reasoning": "No projects"}''\<close>

definition demo_quota_fail :: string where
  \<open>demo_quota_fail = ''{"weighted_average": 0, "verdict": "FAIL", "reasoning": "Error: quota exceeded"}''\<close>

definition demo_replies :: "string list" where
  "demo_replies = [''Sorry, no JSON'', demo_good_a, ''not json'', ''Sorry again'', demo_good_d]"

definition demo_loads :: "string \<Rightarrow> exn + json" where
  "demo_loads s =
     (if s = demo_good_a then
        Inr (JObj [(''weighted_average'', JFloat (15 / 2)), (''verdict'', JStr ''PASS''),
                    (''reasoning'', JStr ''Strong Python'')])
      else if s = demo_good_d then
        Inr (JObj [(''weighted_average'', JInt 3), (''verdict'', JStr ''FAIL''),
                    (''reasoning'', JStr ''No projects'')])
      else if s = demo_quota_fail then
        Inr (JObj [(''weighted_average'', JInt 0), (''verdict'', JStr ''FAIL''),
                    (''reasoning'', JStr ''Error: quota exceeded'')])
      else Inl (Exn JSONDecodeError ''Expecting value''))"

text \<open>\<open>json.dumps\<close> on the one value the worked batch serialises.\<close>

definition demo_dumps :: "json \<Rightarrow> string" where
  "demo_dumps j =
     (if j = error_verdict (Exn (OtherError ''RateLimitError'') ''quota exceeded'')
      then demo_quota_fail else ''null'')"

definition demo_env :: "(string list, nat) env" where
  "demo_env =
     \<lparr>str_lower = ascii_lower, str_upper = ascii_upper, str_strip = ascii_strip,
      pdf_page_texts = (\<lambda>f w. (f, w)),
      ocr_image_texts = (\<lambda>f w. (Inr [], w)),
      docx_paragraphs = (\<lambda>f w. (Inr f, w)),
      responses_create = (\<lambda>req w.
         (if w < length demo_replies then Inr (demo_replies ! w)
          else Inl (Exn (OtherError ''RateLimitError'') ''quota exceeded''), Suc w)),
      chat_completions_create = (\<lambda>req w.
         (Inl (Exn (OtherError ''APIConnectionError'') ''Connection error.''), Suc w)),
      json_loads = demo_loads,
      json_dumps = demo_dumps\<rparr>"

text \<open>
  A client whose responses API rejects the \<open>response_format\<close> argument with a TypeError;
  its chat API answers the first call and is unreachable afterwards.
\<close>

definition legacy_env :: "(string list, nat) env" where
  "legacy_env =
     demo_env
       \<lparr>responses_create := (\<lambda>req w.
          (Inl (Exn TypeError ''create() got an unexpected keyword argument response_format''), w)),
        chat_completions_create := (\<lambda>req w.
          (if w = 0 then Inr demo_good_a
           else Inl (Exn (OtherError ''APIConnectionError'') ''Connection error.''), Suc w))\<rparr>"

definition demo_files :: "string list uploaded_file list" where
  "demo_files =
     [\<lparr>name = ''b.pdf'', stream = [''Bob: Java'']\<rparr>,
      \<lparr>name = ''a.pdf'', stream = [''Alice: Python, SQL'']\<rparr>,
      \<lparr>name = ''c.pdf'', stream = []\<rparr>,
      \<lparr>name = ''d.docx'', stream = [''Dan'', ''Go'']\<rparr>]"

definition demo_outs1 :: "outcome list" where
  "demo_outs1 =
     [ParseFailed,
      Parsed [(''weighted_average'', JFloat (15 / 2)), (''verdict'', JStr ''PASS''),
              (''reasoning'', JStr ''Strong Python''), (''filename'', JStr ''a.pdf'')],
      Unreadable, ParseFailed]"

definition demo_outs2 :: "outcome list" where
  "demo_outs2 =
     [ParseFailed, Unreadable,
      Parsed [(''weighted_average'', JInt 3), (''verdict'', JStr ''FAIL''),
              (''reasoning'', JStr ''No projects''), (''filename'', JStr ''d.docx'')]]"

definition demo_results :: "dict list" where
  "demo_results =
     [[(''weighted_average'', JFloat (15 / 2)), (''verdict'', JStr ''PASS''),
       (''reasoning'', JStr ''Strong Python''), (''filename'', JStr ''a.pdf'')],
      [(''filename'', JStr ''b.pdf''), (''weighted_average'', JInt 0), (''verdict'', JStr ''FAIL''),
       (''reasoning'', JStr ''Resume could not be parsed after two attempts.'')],
      [(''filename'', JStr ''c.pdf''), (''weighted_average'', JInt 0), (''verdict'', JStr ''FAIL''),
       (''reasoning'', JStr ''Unreadable or empty resume text (after retry).'')],
      [(''weighted_average'', JInt 3), (''verdict'', JStr ''FAIL''),
       (''reasoning'', JStr ''No projects''), (''filename'', JStr ''d.docx'')]]"

text \<open>Three verdicts with the weighted averages 3.2, 9.1 and 6.0.\<close>

definition demo_scores :: "dict list" where
  "demo_scores =
     [[(''weighted_average'', JFloat (16 / 5)), (''verdict'', JStr ''FAIL''), (''filename'', JStr ''x.pdf'')],
      [(''weighted_average'', JFloat (91 / 10)), (''verdict'', JStr ''PASS''), (''filename'', JStr ''y.pdf'')],
      [(''weighted_average'', JInt 6), (''verdict'', JStr ''PASS''), (''filename'', JStr ''z.pdf'')]]"

text \<open>
  An uploaded results table of four rows; a cell is a string, or \<open>None\<close> for an empty
  cell, which pandas converts to \<open>nan\<close>.
\<close>

definition demo_astype_str :: "string option \<Rightarrow> string" where
  "demo_astype_str c = (case c of None \<Rightarrow> ''nan'' | Some s \<Rightarrow> s)"

definition demo_row :: "string \<Rightarrow> string option \<Rightarrow> string \<Rightarrow> string option" where
  "demo_row filename verdict c =
     (if c = ''filename'' then Some filename else if c = ''verdict'' then verdict else None)"

definition demo_table :: "string option dataframe" where
  "demo_table =
     \<lparr>columns = [''filename'', ''verdict''],
      rows = [demo_row ''a.pdf'' (Some ''PASS''), demo_row ''b.pdf'' (Some ''FAIL''),
              demo_row ''c.pdf'' None, demo_row ''d.docx'' (Some ''Pass'')]\<rparr>"

definition demo_table_no_verdict :: "string option dataframe" where
  "demo_table_no_verdict =
     \<lparr>columns = [''filename'', ''score''], rows = [demo_row ''a.pdf'' (Some ''PASS'')]\<rparr>"







section \<open>Facts about strings\<close>

lemma char_of_eq_iff2: "c = char_of (n::nat) \<longleftrightarrow> take_bit 8 n = of_char c"
  using char_of_eq_iff[of n c] by auto

lemmas str_eval = ascii_lower_def ascii_lower_char_def ascii_upper_def ascii_upper_char_def char_of_eq_iff char_of_eq_iff2
  take_bit_eq_mod ascii_strip_def ascii_isspace_def ascii_ops_def is_ascii_def

lemma lower_upper_char: "ascii_lower_char (ascii_upper_char c) = ascii_lower_char c"
proof (cases "(97::nat) \<le> of_char c \<and> of_char c \<le> (122::nat)")
  case True
  define n :: nat where "n = of_char c"
  from True have n: "97 \<le> n" "n \<le> 122" by (simp_all add: n_def)
  have u: "ascii_upper_char c = char_of (n - 32)"
    using True by (simp add: ascii_upper_char_def n_def)
  from n have m: "(n - 32) mod 256 = n - 32" by simp
  from n have "65 \<le> n - 32" "n - 32 \<le> 90" by arith+
  then have "ascii_lower_char (char_of (n - 32)) = char_of (n - 32 + 32)"
    by (simp add: ascii_lower_char_def m)
  also from n have "n - 32 + 32 = n" by simp
  also have "char_of n = c" by (simp add: n_def)
  finally have "ascii_lower_char (ascii_upper_char c) = c" by (simp add: u)
  moreover have "ascii_lower_char c = c" using n by (simp add: ascii_lower_char_def n_def[symmetric])
  ultimately show ?thesis by simp
next
  case False
  then show ?thesis by (auto simp: ascii_upper_char_def)
qed

lemma upper_lower_char: "ascii_upper_char (ascii_lower_char c) = ascii_upper_char c"
proof (cases "(65::nat) \<le> of_char c \<and> of_char c \<le> (90::nat)")
  case True
  define n :: nat where "n = of_char c"
  from True have n: "65 \<le> n" "n \<le> 90" by (simp_all add: n_def)
  have u: "ascii_lower_char c = char_of (n + 32)"
    using True by (simp add: ascii_lower_char_def n_def)
  from n have m: "(n + 32) mod 256 = n + 32" by simp
  from n have "97 \<le> n + 32" "n + 32 \<le> 122" by arith+
  then have "ascii_upper_char (char_of (n + 32)) = char_of (n + 32 - 32)"
    by (simp add: ascii_upper_char_def m)
  also have "n + 32 - 32 = n" by simp
  also have "char_of n = c" by (simp add: n_def)
  finally have "ascii_upper_char (ascii_lower_char c) = c" by (simp add: u)
  moreover have "ascii_upper_char c = c" using n by (simp add: ascii_upper_char_def n_def[symmetric])
  ultimately show ?thesis by simp
next
  case False
  then show ?thesis by (auto simp: ascii_lower_char_def)
qed

lemma upper_eq_iff_lower_eq: "ascii_upper a = ascii_upper b \<longleftrightarrow> ascii_lower a = ascii_lower b"
proof
  assume "ascii_upper a = ascii_upper b"
  then have "map ascii_lower_char (map ascii_upper_char a) = map ascii_lower_char (map ascii_upper_char b)"
    by (simp only: ascii_upper_def)
  then show "ascii_lower a = ascii_lower b"
    by (simp add: ascii_lower_def comp_def lower_upper_char)
next
  assume "ascii_lower a = ascii_lower b"
  then have "map ascii_upper_char (map ascii_lower_char a) = map ascii_upper_char (map ascii_lower_char b)"
    by (simp only: ascii_lower_def)
  then show "ascii_upper a = ascii_upper b"
    by (simp add: ascii_upper_def comp_def upper_lower_char)
qed

lemma upper_PASS_iff: "ascii_upper s = ''PASS'' \<longleftrightarrow> ascii_equals_ignoring_case s ''PASS''"
proof -
  have "ascii_upper ''PASS'' = ''PASS''" by (simp add: str_eval)
  then have "ascii_upper s = ''PASS'' \<longleftrightarrow> ascii_upper s = ascii_upper ''PASS''" by simp
  then show ?thesis by (simp only: upper_eq_iff_lower_eq ascii_equals_ignoring_case_def)
qed

section \<open>Lemmas on the screening pipeline\<close>

subsection \<open>The loops in terms of attempts\<close>

lemma pass1_step:
  "pass1 env role (f # rest) results failed_files w =
     (case attempt env role f w of
        (Inl e, w1) \<Rightarrow> (Inl e, w1)
      | (Inr (Parsed d), w1) \<Rightarrow> pass1 env role rest (results @ [d]) failed_files w1
      | (Inr out, w1) \<Rightarrow> pass1 env role rest results (failed_files @ [f]) w1)"
  by (simp add: attempt_def split: prod.split sum.split option.split)

lemma pass2_step:
  "pass2 env role (f # rest) results w =
     (case attempt env role f w of
        (Inl e, w1) \<Rightarrow> (Inl e, w1)
      | (Inr out, w1) \<Rightarrow> pass2 env role rest (results @ [terminal f out]) w1)"
  by (simp add: attempt_def split: prod.split sum.split option.split)

lemma pass1_attempts:
  "pass1 env role files results failed_files w =
     (case attempts env role files w of
        (Inl e, w') \<Rightarrow> (Inl e, w')
      | (Inr outs, w') \<Rightarrow> (Inr (results @ parsed_of outs, failed_files @ retry_set files outs), w'))"
proof (induction files arbitrary: results failed_files w)
  case Nil
  then show ?case by simp
next
  case (Cons f rest)
  show ?case
  proof (cases "attempt env role f w")
    case (Pair r w1)
    show ?thesis
    proof (cases r)
      case (Inl e)
      with Pair show ?thesis by (simp add: pass1_step del: pass1.simps)
    next
      case (Inr out)
      with Pair show ?thesis
        by (cases out; cases "attempts env role rest w1")
           (simp_all add: pass1_step Cons.IH del: pass1.simps split: sum.split)
    qed
  qed
qed

lemma pass2_attempts:
  "pass2 env role files results w =
     (case attempts env role files w of
        (Inl e, w') \<Rightarrow> (Inl e, w')
      | (Inr outs, w') \<Rightarrow> (Inr (results @ map2 terminal files outs), w'))"
proof (induction files arbitrary: results w)
  case Nil
  then show ?case by simp
next
  case (Cons f rest)
  show ?case
  proof (cases "attempt env role f w")
    case (Pair r w1)
    show ?thesis
    proof (cases r)
      case (Inl e)
      with Pair show ?thesis by (simp add: pass2_step del: pass2.simps)
    next
      case (Inr out)
      with Pair show ?thesis
        by (cases "attempts env role rest w1")
           (simp_all add: pass2_step Cons.IH del: pass2.simps split: sum.split)
    qed
  qed
qed

lemma attempts_length:
  "attempts env role files w = (Inr outs, w') \<Longrightarrow> length outs = length files"
  by (induction files arbitrary: outs w) (auto split: prod.splits sum.splits)

lemma run_screening_attempts:
  assumes "run_screening env role files w = (Inr results, w')"
  shows "\<exists>outs1 w1 outs2.
           attempts env role files w = (Inr outs1, w1) \<and>
           attempts env role (retry_set files outs1) w1 = (Inr outs2, w') \<and>
           results = parsed_of outs1 @ map2 terminal (retry_set files outs1) outs2"
proof (cases "attempts env role files w")
  case (Pair r w1)
  show ?thesis
  proof (cases r)
    case (Inl e)
    with Pair assms show ?thesis
      by (simp add: run_screening_def pass1_attempts)
  next
    case (Inr outs1)
    show ?thesis
    proof (cases "retry_set files outs1 = []")
      case True
      with Pair Inr assms show ?thesis
        by (simp add: run_screening_def pass1_attempts)
    next
      case False
      with Pair Inr assms show ?thesis
        by (auto simp add: run_screening_def pass1_attempts pass2_attempts
                 split: prod.splits sum.splits)
    qed
  qed
qed

lemma set_filename_Inr:
  "set_filename j v = Inr d \<Longrightarrow> filename_of d = Some (JStr v)"
  by (cases j) (auto simp: filename_of_def update_conv')

lemma attempt_Parsed_filename:
  "attempt env role f w = (Inr (Parsed d), w') \<Longrightarrow> filename_of d = Some (JStr (name f))"
  by (auto simp: attempt_def set_filename_Inr split: prod.splits sum.splits option.splits if_splits)

lemma attempts_Cons_Inr:
  "attempts env role (f # rest) w = (Inr outs, w') \<Longrightarrow>
     \<exists>out outs' w1. outs = out # outs' \<and> attempt env role f w = (Inr out, w1)
        \<and> attempts env role rest w1 = (Inr outs', w')"
  by (auto split: prod.splits sum.splits)

lemma retry_set_zip:
  "retry_set files outs = map fst (filter (\<lambda>(f, out). \<not> is_parsed out) (zip files outs))"
  by (induction files outs rule: retry_set.induct) auto

lemma parsed_of_filenames:
  "attempts env role files w = (Inr outs, w') \<Longrightarrow>
     map filename_of (parsed_of outs) =
       map (\<lambda>f. Some (JStr (name f))) (map fst (filter (\<lambda>(f, out). is_parsed out) (zip files outs)))"
proof (induction files arbitrary: outs w)
  case Nil
  then show ?case by simp
next
  case (Cons f rest)
  from attempts_Cons_Inr[OF Cons.prems] obtain out outs' w1 where
    o: "outs = out # outs'" and a: "attempt env role f w = (Inr out, w1)"
    and r: "attempts env role rest w1 = (Inr outs', w')" by blast
  from Cons.IH[OF r] a o show ?case
    by (cases out) (auto dest: attempt_Parsed_filename)
qed

lemma terminal_filename:
  "attempt env role f w = (Inr out, w') \<Longrightarrow> filename_of (terminal f out) = Some (JStr (name f))"
  by (cases out)
     (auto simp: parse_failed_verdict_def unreadable_verdict_def filename_of_def
           dest: attempt_Parsed_filename)

lemma terminal_filenames:
  "attempts env role files w = (Inr outs, w') \<Longrightarrow>
     map filename_of (map2 terminal files outs) = map (\<lambda>f. Some (JStr (name f))) files"
proof (induction files arbitrary: outs w)
  case Nil
  then show ?case by simp
next
  case (Cons f rest)
  from attempts_Cons_Inr[OF Cons.prems] obtain out outs' w1 where
    o: "outs = out # outs'" and a: "attempt env role f w = (Inr out, w1)"
    and r: "attempts env role rest w1 = (Inr outs', w')" by blast
  from Cons.IH[OF r] terminal_filename[OF a] o show ?case by simp
qed

lemma mset_partition_zip:
  "length xs = length ys \<Longrightarrow>
     mset (map fst (filter (\<lambda>(x, y). P y) (zip xs ys))) +
     mset (map fst (filter (\<lambda>(x, y). \<not> P y) (zip xs ys))) = mset xs"
  by (induction xs ys rule: list_induct2) auto

lemma retry_set_nth:
  "length outs = length files \<Longrightarrow> i < length files \<Longrightarrow> \<not> is_parsed (outs ! i) \<Longrightarrow>
     retry_pos outs i < length (retry_set files outs) \<and>
     retry_set files outs ! retry_pos outs i = files ! i"
proof (induction files outs arbitrary: i rule: retry_set.induct)
  case (1 f fs out outs)
  show ?case
  proof (cases i)
    case 0
    with 1 show ?thesis by (simp add: retry_pos_def)
  next
    case (Suc k)
    with 1 show ?thesis by (auto simp: retry_pos_def)
  qed
qed simp_all

subsection \<open>The run as two traces\<close>

lemma run_screening_trace:
  assumes "run_screening env role files w = (Inr results, w')"
  shows "\<exists>outs1 w1 outs2.
           attempts env role files w = (Inr outs1, w1) \<and>
           attempts env role (retry_set files outs1) w1 = (Inr outs2, w') \<and>
           length outs1 = length files \<and>
           length outs2 = length (retry_set files outs1) \<and>
           results = parsed_of outs1 @ map2 terminal (retry_set files outs1) outs2"
proof -
  from run_screening_attempts[OF assms] obtain outs1 w1 outs2 where
    a1: "attempts env role files w = (Inr outs1, w1)" and
    a2: "attempts env role (retry_set files outs1) w1 = (Inr outs2, w')" and
    r: "results = parsed_of outs1 @ map2 terminal (retry_set files outs1) outs2"
    by blast
  from attempts_length[OF a1] attempts_length[OF a2] a1 a2 r
  show ?thesis by (intro exI[of _ outs1] exI[of _ w1] exI[of _ outs2]) simp
qed

lemma retried_verdict:
  assumes "length outs1 = length files" and "length outs2 = length (retry_set files outs1)"
    and "i < length files" and "\<not> is_parsed (outs1 ! i)"
  shows "retry_pos outs1 i < length outs2 \<and>
         retry_set files outs1 ! retry_pos outs1 i = files ! i \<and>
         (parsed_of outs1 @ map2 terminal (retry_set files outs1) outs2)
            ! (length (parsed_of outs1) + retry_pos outs1 i)
           = terminal (files ! i) (outs2 ! retry_pos outs1 i)"
proof -
  from retry_set_nth[OF assms(1) assms(3) assms(4)]
  have p: "retry_pos outs1 i < length (retry_set files outs1)"
    and q: "retry_set files outs1 ! retry_pos outs1 i = files ! i" by simp_all
  from p assms(2) show ?thesis
    using q by (simp add: nth_append)
qed

lemma length_filter_eq_distinct:
  "distinct xs \<Longrightarrow> x \<in> set xs \<Longrightarrow> length (filter (\<lambda>y. y = x) xs) = 1"
  by (induction xs) (auto simp: filter_empty_conv)

lemma length_filter_mset_cong:
  "mset xs = mset ys \<Longrightarrow> length (filter P xs) = length (filter P ys)"
  by (metis mset_filter size_mset)

lemma filenames_mset:
  assumes a1: "attempts env role files w = (Inr outs1, w1)"
    and a2: "attempts env role (retry_set files outs1) w1 = (Inr outs2, w')"
  shows "mset (map filename_of (parsed_of outs1 @ map2 terminal (retry_set files outs1) outs2)) =
         mset (map (\<lambda>f. Some (JStr (name f))) files)"
proof -
  let ?nm = "\<lambda>f. Some (JStr (name f))"
  let ?ok = "map fst (filter (\<lambda>(f, out). is_parsed out) (zip files outs1))"
  let ?ko = "map fst (filter (\<lambda>(f, out). \<not> is_parsed out) (zip files outs1))"
  have l1: "length files = length outs1" using attempts_length[OF a1] by simp
  have "mset (map filename_of (parsed_of outs1 @ map2 terminal (retry_set files outs1) outs2)) =
          mset (map ?nm ?ok) + mset (map ?nm ?ko)"
    using parsed_of_filenames[OF a1] terminal_filenames[OF a2]
    by (simp add: retry_set_zip del: map_map)
  also have "\<dots> = image_mset ?nm (mset ?ok + mset ?ko)"
    by (simp del: map_map)
  also have "mset ?ok + mset ?ko = mset files"
    by (rule mset_partition_zip[OF l1])
  finally show ?thesis by simp
qed

subsection \<open>What the outcomes of an attempt mean\<close>

lemma attempt_Unreadable_iff:
  "attempt env role file w = (Inr Unreadable, w') \<longleftrightarrow>
     (\<exists>extracted. extract_text env file w = (Inr extracted, w') \<and> str_strip env extracted = [])"
  by (auto simp: attempt_def split: prod.splits sum.splits option.splits if_splits)

lemma attempt_ParseFailed_iff:
  "attempt env role file w = (Inr ParseFailed, w') \<longleftrightarrow>
     (\<exists>extracted w1 llm_output.
        extract_text env file w = (Inr extracted, w1) \<and> str_strip env extracted \<noteq> [] \<and>
        analyze_resume_with_llm env role extracted w1 = (Inr llm_output, w') \<and>
        (\<exists>e. json_loads env llm_output = Inl e \<and> exn_kind e = JSONDecodeError))"
  by (auto simp: attempt_def split: prod.splits sum.splits option.splits if_splits)

subsection \<open>When the run completes\<close>

text \<open>
  The run completes when reading a DOCX file does not raise, the chat fallback does not
  raise, \<open>json.loads\<close> raises nothing but \<open>JSONDecodeError\<close>, and every text that
  parses is a JSON object.
\<close>

lemma attempt_returns:
  assumes docx: "\<forall>f w. \<exists>ps w'. docx_paragraphs env f w = (Inr ps, w')"
    and chat: "\<forall>req w. \<exists>t w'. chat_completions_create env req w = (Inr t, w')"
    and objs: "\<forall>s j. json_loads env s = Inr j \<longrightarrow> (\<exists>d. j = JObj d)"
    and errs: "\<forall>s e. json_loads env s = Inl e \<longrightarrow> exn_kind e = JSONDecodeError"
  shows "\<exists>out w'. attempt env role upload w = (Inr out, w')"
proof -
  obtain extracted w1 where x: "extract_text env upload w = (Inr extracted, w1)"
  proof (cases "suffix ''.pdf'' (name upload)")
    case True
    obtain t wa where "extract_text_from_pdf env (stream upload) w = (t, wa)"
      by (cases "extract_text_from_pdf env (stream upload) w")
    with True show ?thesis
      using that by (simp add: extract_text_def)
  next
    case False
    from docx obtain ps w' where
      "docx_paragraphs env (stream upload) w = (Inr ps, w')" by blast
    with False show ?thesis
      using that by (simp add: extract_text_def extract_text_from_docx_def)
  qed
  show ?thesis
  proof (cases "str_strip env extracted = []")
    case True
    with x show ?thesis by (simp add: attempt_def)
  next
    case False
    obtain out w2 where a: "analyze_resume_with_llm env role extracted w1 = (Inr out, w2)"
    proof (cases "responses_create env (responses_request role extracted) w1")
      case (Pair r wa)
      show ?thesis
      proof (cases r)
        case (Inr t)
        with Pair show ?thesis using that by (simp add: analyze_resume_with_llm_def)
      next
        case (Inl e)
        from chat obtain t wb where
          "chat_completions_create env (chat_request role extracted) wa = (Inr t, wb)" by blast
        with Pair Inl show ?thesis using that
          by (cases "exn_kind e = TypeError") (simp_all add: analyze_resume_with_llm_def)
      qed
    qed
    show ?thesis
    proof (cases "json_loads env out")
      case (Inl e)
      with errs have "exn_kind e = JSONDecodeError" by blast
      with Inl x False a show ?thesis by (simp add: attempt_def)
    next
      case (Inr j)
      from objs Inr obtain d where "j = JObj d" by blast
      with Inr x False a show ?thesis by (simp add: attempt_def)
    qed
  qed
qed

lemma attempts_return:
  assumes docx: "\<forall>f w. \<exists>ps w'. docx_paragraphs env f w = (Inr ps, w')"
    and chat: "\<forall>req w. \<exists>t w'. chat_completions_create env req w = (Inr t, w')"
    and objs: "\<forall>s j. json_loads env s = Inr j \<longrightarrow> (\<exists>d. j = JObj d)"
    and errs: "\<forall>s e. json_loads env s = Inl e \<longrightarrow> exn_kind e = JSONDecodeError"
  shows "\<exists>outs w'. attempts env role files w = (Inr outs, w')"
proof (induction files arbitrary: w)
  case Nil
  then show ?case by simp
next
  case (Cons f rest)
  from attempt_returns[OF docx chat objs errs, where role=role and upload=f and w=w] obtain out w1 where
    "attempt env role f w = (Inr out, w1)" by blast
  moreover from Cons.IH[where w=w1] obtain outs w2 where
    "attempts env role rest w1 = (Inr outs, w2)" by blast
  ultimately show ?case by simp
qed

lemma run_screening_returns:
  assumes docx: "\<forall>f w. \<exists>ps w'. docx_paragraphs env f w = (Inr ps, w')"
    and chat: "\<forall>req w. \<exists>t w'. chat_completions_create env req w = (Inr t, w')"
    and objs: "\<forall>s j. json_loads env s = Inr j \<longrightarrow> (\<exists>d. j = JObj d)"
    and errs: "\<forall>s e. json_loads env s = Inl e \<longrightarrow> exn_kind e = JSONDecodeError"
  shows "\<exists>results w'. run_screening env role files w = (Inr results, w')"
proof -
  from attempts_return[OF docx chat objs errs, where role=role and files=files and w=w] obtain outs1 w1 where
    a1: "attempts env role files w = (Inr outs1, w1)" by blast
  from attempts_return[OF docx chat objs errs, where role=role and files="retry_set files outs1" and w=w1] obtain outs2 w2 where
    a2: "attempts env role (retry_set files outs1) w1 = (Inr outs2, w2)" by blast
  from a1 a2 show ?thesis
    by (simp add: run_screening_def pass1_attempts pass2_attempts)
qed

section \<open>Properties of the screening pipeline\<close>

text \<open>
  Claim C1. When the two-pass run completes, its results hold exactly one verdict per
  input file: the filenames of the results are the names of the batch as a multiset, so
  with distinct names each name has exactly one verdict. The results are the verdicts
  parsed in pass 1 followed by one verdict for every file of the retry set, which holds
  exactly the files pass 1 did not parse.
\<close>

theorem one_verdict_per_filename:
  assumes "run_screening env role files w = (Inr results, w')"
  shows "mset (map filename_of results) = mset (map (\<lambda>f. Some (JStr (name f))) files) \<and>
         length results = length files \<and>
         (distinct (map name files) \<longrightarrow>
            (\<forall>f\<in>set files.
               length (filter (\<lambda>d. filename_of d = Some (JStr (name f))) results) = 1)) \<and>
         (\<exists>outs1 w1 outs2.
            attempts env role files w = (Inr outs1, w1) \<and>
            attempts env role (retry_set files outs1) w1 = (Inr outs2, w') \<and>
            length outs2 = length (retry_set files outs1) \<and>
            results = parsed_of outs1 @ map2 terminal (retry_set files outs1) outs2)"
proof -
  let ?nm = "\<lambda>f. Some (JStr (name f))"
  from run_screening_trace[OF assms] obtain outs1 w1 outs2 where
    a1: "attempts env role files w = (Inr outs1, w1)" and
    a2: "attempts env role (retry_set files outs1) w1 = (Inr outs2, w')" and
    l2: "length outs2 = length (retry_set files outs1)" and
    r: "results = parsed_of outs1 @ map2 terminal (retry_set files outs1) outs2"
    by blast
  have m: "mset (map filename_of results) = mset (map ?nm files)"
    unfolding r by (rule filenames_mset[OF a1 a2])
  have len: "length results = length files"
    using arg_cong[OF m, of size] by simp
  have d: "length (filter (\<lambda>d. filename_of d = ?nm f) results) = 1"
    if dist: "distinct (map name files)" and f: "f \<in> set files" for f
  proof -
    have "distinct (map (\<lambda>s. Some (JStr s)) (map name files))"
      using dist by (simp only: distinct_map) (simp add: inj_on_def)
    then have "distinct (map ?nm files)" by (simp add: comp_def)
    moreover from f have "?nm f \<in> set (map ?nm files)" by (simp del: map_map)
    ultimately have "length (filter (\<lambda>y. y = ?nm f) (map ?nm files)) = 1"
      by (rule length_filter_eq_distinct)
    with length_filter_mset_cong[OF m, of "\<lambda>y. y = ?nm f"]
    have "length (filter (\<lambda>y. y = ?nm f) (map filename_of results)) = 1" by simp
    then show ?thesis
      by (simp add: filter_map comp_def)
  qed
  have e: "\<exists>outs1 w1 outs2.
            attempts env role files w = (Inr outs1, w1) \<and>
            attempts env role (retry_set files outs1) w1 = (Inr outs2, w') \<and>
            length outs2 = length (retry_set files outs1) \<and>
            results = parsed_of outs1 @ map2 terminal (retry_set files outs1) outs2"
    using a1 a2 l2 r by (intro exI[of _ outs1] exI[of _ w1] exI[of _ outs2]) simp
  from m len d e show ?thesis by (intro conjI impI ballI) 
qed

lemma run_screening_of_attempts:
  assumes a1: "attempts env role files w = (Inr outs1, w1)"
    and a2: "attempts env role (retry_set files outs1) w1 = (Inr outs2, w2)"
  shows "run_screening env role files w =
           (Inr (parsed_of outs1 @ map2 terminal (retry_set files outs1) outs2), w2)"
proof (cases "retry_set files outs1 = []")
  case True
  with a2 have "outs2 = []" "w2 = w1" by simp_all
  with True a1 show ?thesis by (simp add: run_screening_def pass1_attempts)
next
  case False
  with a1 a2 show ?thesis by (simp add: run_screening_def pass1_attempts pass2_attempts)
qed

lemma attempt_ParseFailedI:
  assumes "extract_text env f w = (Inr t, wa)" and "str_strip env t \<noteq> []"
    and "analyze_resume_with_llm env role t wa = (Inr out, wb)"
    and "json_loads env out = Inl e" and "exn_kind e = JSONDecodeError"
  shows "attempt env role f w = (Inr ParseFailed, wb)"
  using assms by (simp add: attempt_def)

lemma attempt_UnreadableI:
  assumes "extract_text env f w = (Inr t, wa)" and "str_strip env t = []"
  shows "attempt env role f w = (Inr Unreadable, wa)"
  using assms by (simp add: attempt_def)

text \<open>
  Claim C3. A file whose text is read and is not blank, and whose evaluator answer makes
  \<open>json.loads\<close> raise \<open>JSONDecodeError\<close>, is put in the retry set by pass 1 without a
  verdict, and pass 2 appends for it the verdict FAIL with weighted_average 0 and the
  reasoning "Resume could not be parsed after two attempts.". When the attempts of both
  passes return, the run returns, and such a file of the batch has that verdict at its
  place in the results.
\<close>

theorem twice_unparsed_terminal_verdict:
  "(extract_text env f w = (Inr t, wa) \<and> str_strip env t \<noteq> [] \<and>
    analyze_resume_with_llm env role t wa = (Inr out, wb) \<and>
    json_loads env out = Inl e \<and> exn_kind e = JSONDecodeError \<longrightarrow>
      pass1 env role (f # rest) acc failed_files w =
        pass1 env role rest acc (failed_files @ [f]) wb \<and>
      pass2 env role (f # rest) acc w =
        pass2 env role rest
          (acc @ [[(''filename'', JStr (name f)), (''weighted_average'', JInt 0),
                  (''verdict'', JStr ''FAIL''),
                  (''reasoning'', JStr ''Resume could not be parsed after two attempts.'')]]) wb) \<and>
   (attempts env role files w0 = (Inr outs1, w1) \<and>
    attempts env role (retry_set files outs1) w1 = (Inr outs2, w2) \<longrightarrow>
      (\<exists>results.
         run_screening env role files w0 = (Inr results, w2) \<and>
         (\<forall>i<length files.
            outs1 ! i = ParseFailed \<and> outs2 ! retry_pos outs1 i = ParseFailed \<longrightarrow>
              retry_set files outs1 ! retry_pos outs1 i = files ! i \<and>
              results ! (length (parsed_of outs1) + retry_pos outs1 i) =
                [(''filename'', JStr (name (files ! i))), (''weighted_average'', JInt 0),
                 (''verdict'', JStr ''FAIL''),
                 (''reasoning'', JStr ''Resume could not be parsed after two attempts.'')])))"
proof -
  have step: "pass1 env role (f # rest) acc failed_files w =
                pass1 env role rest acc (failed_files @ [f]) wb \<and>
              pass2 env role (f # rest) acc w =
                pass2 env role rest (acc @ [parse_failed_verdict (name f)]) wb"
    if "extract_text env f w = (Inr t, wa)" "str_strip env t \<noteq> []"
       "analyze_resume_with_llm env role t wa = (Inr out, wb)"
       "json_loads env out = Inl e" "exn_kind e = JSONDecodeError"
    using attempt_ParseFailedI[OF that] by (simp add: pass1_step pass2_step del: pass1.simps pass2.simps)
  have run: "\<exists>results.
         run_screening env role files w0 = (Inr results, w2) \<and>
         (\<forall>i<length files.
            outs1 ! i = ParseFailed \<and> outs2 ! retry_pos outs1 i = ParseFailed \<longrightarrow>
              retry_set files outs1 ! retry_pos outs1 i = files ! i \<and>
              results ! (length (parsed_of outs1) + retry_pos outs1 i) =
                parse_failed_verdict (name (files ! i)))"
    if a1: "attempts env role files w0 = (Inr outs1, w1)"
      and a2: "attempts env role (retry_set files outs1) w1 = (Inr outs2, w2)"
  proof -
    let ?results = "parsed_of outs1 @ map2 terminal (retry_set files outs1) outs2"
    have "retry_set files outs1 ! retry_pos outs1 i = files ! i \<and>
          ?results ! (length (parsed_of outs1) + retry_pos outs1 i) =
            parse_failed_verdict (name (files ! i))"
      if "i < length files" "outs1 ! i = ParseFailed" "outs2 ! retry_pos outs1 i = ParseFailed" for i
      using retried_verdict[OF attempts_length[OF a1] attempts_length[OF a2] that(1)] that(2,3)
      by simp
    with run_screening_of_attempts[OF a1 a2] show ?thesis
      by (intro exI[of _ ?results]) simp
  qed
  from step run show ?thesis unfolding parse_failed_verdict_def by blast
qed

text \<open>
  Claim C4, as amended. A file whose text is read and is blank is put in the retry set by
  pass 1 without a verdict, and pass 2, finding it blank again, appends for it the
  verdict FAIL with weighted_average 0 and the reasoning
  "Unreadable or empty resume text (after retry).". When the attempts of both passes
  return, the run returns, pass 2 makes one attempt per file of the retry set, and a file
  of the batch that was blank in both passes has that verdict at its place in the results.
\<close>

theorem unreadable_twice_terminal_verdict:
  "(extract_text env f w = (Inr t, wa) \<and> str_strip env t = [] \<longrightarrow>
      pass1 env role (f # rest) acc failed_files w =
        pass1 env role rest acc (failed_files @ [f]) wa \<and>
      pass2 env role (f # rest) acc w =
        pass2 env role rest
          (acc @ [[(''filename'', JStr (name f)), (''weighted_average'', JInt 0),
                  (''verdict'', JStr ''FAIL''),
                  (''reasoning'', JStr ''Unreadable or empty resume text (after retry).'')]]) wa) \<and>
   (attempts env role files w0 = (Inr outs1, w1) \<and>
    attempts env role (retry_set files outs1) w1 = (Inr outs2, w2) \<longrightarrow>
      (\<exists>results.
         run_screening env role files w0 = (Inr results, w2) \<and>
         length outs2 = length (retry_set files outs1) \<and>
         (\<forall>i<length files.
            outs1 ! i = Unreadable \<and> outs2 ! retry_pos outs1 i = Unreadable \<longrightarrow>
              retry_pos outs1 i < length (retry_set files outs1) \<and>
              retry_set files outs1 ! retry_pos outs1 i = files ! i \<and>
              results ! (length (parsed_of outs1) + retry_pos outs1 i) =
                [(''filename'', JStr (name (files ! i))), (''weighted_average'', JInt 0),
                 (''verdict'', JStr ''FAIL''),
                 (''reasoning'', JStr ''Unreadable or empty resume text (after retry).'')])))"
proof -
  have step: "pass1 env role (f # rest) acc failed_files w =
                pass1 env role rest acc (failed_files @ [f]) wa \<and>
              pass2 env role (f # rest) acc w =
                pass2 env role rest (acc @ [unreadable_verdict (name f)]) wa"
    if "extract_text env f w = (Inr t, wa)" "str_strip env t = []"
    using attempt_UnreadableI[OF that] by (simp add: pass1_step pass2_step del: pass1.simps pass2.simps)
  have run: "\<exists>results.
         run_screening env role files w0 = (Inr results, w2) \<and>
         length outs2 = length (retry_set files outs1) \<and>
         (\<forall>i<length files.
            outs1 ! i = Unreadable \<and> outs2 ! retry_pos outs1 i = Unreadable \<longrightarrow>
              retry_pos outs1 i < length (retry_set files outs1) \<and>
              retry_set files outs1 ! retry_pos outs1 i = files ! i \<and>
              results ! (length (parsed_of outs1) + retry_pos outs1 i) =
                unreadable_verdict (name (files ! i)))"
    if a1: "attempts env role files w0 = (Inr outs1, w1)"
      and a2: "attempts env role (retry_set files outs1) w1 = (Inr outs2, w2)"
  proof -
    let ?results = "parsed_of outs1 @ map2 terminal (retry_set files outs1) outs2"
    note l2 = attempts_length[OF a2]
    have "retry_pos outs1 i < length (retry_set files outs1) \<and>
          retry_set files outs1 ! retry_pos outs1 i = files ! i \<and>
          ?results ! (length (parsed_of outs1) + retry_pos outs1 i) =
            unreadable_verdict (name (files ! i))"
      if "i < length files" "outs1 ! i = Unreadable" "outs2 ! retry_pos outs1 i = Unreadable" for i
      using retried_verdict[OF attempts_length[OF a1] l2 that(1)] that(2,3) l2
      by simp
    with run_screening_of_attempts[OF a1 a2] l2 show ?thesis
      by (intro exI[of _ ?results]) simp
  qed
  from step run show ?thesis unfolding unreadable_verdict_def by blast
qed

text \<open>
  Claim C6. When the attempts of both passes return, the run returns the verdicts parsed
  in pass 1, in the order of the batch, followed by the verdicts of pass 2 in the order
  of the retry set, and the retry set lists the files pass 1 did not parse in the order of
  the batch.
\<close>

theorem results_in_terminal_order:
  assumes "attempts env role files w = (Inr outs1, w1)"
    and "attempts env role (retry_set files outs1) w1 = (Inr outs2, w2)"
  shows "run_screening env role files w =
           (Inr (parsed_of outs1 @ map2 terminal (retry_set files outs1) outs2), w2) \<and>
         length outs1 = length files \<and>
         length outs2 = length (retry_set files outs1) \<and>
         map filename_of (parsed_of outs1) =
           map (\<lambda>f. Some (JStr (name f)))
             (map fst (filter (\<lambda>(f, out). is_parsed out) (zip files outs1))) \<and>
         retry_set files outs1 = map fst (filter (\<lambda>(f, out). \<not> is_parsed out) (zip files outs1)) \<and>
         map filename_of (map2 terminal (retry_set files outs1) outs2) =
           map (\<lambda>f. Some (JStr (name f))) (retry_set files outs1)"
  using run_screening_of_attempts[OF assms] attempts_length[OF assms(1)] attempts_length[OF assms(2)]
        parsed_of_filenames[OF assms(1)] terminal_filenames[OF assms(2)]
        retry_set_zip[of files outs1]
  by (intro conjI)

subsection \<open>The worked batch\<close>

lemmas demo_simps =
  demo_env_def demo_files_def attempt_def extract_text_def extract_text_from_pdf_def
  extract_text_from_docx_def analyze_resume_with_llm_def demo_replies_def demo_loads_def
  demo_good_a_def demo_good_d_def demo_quota_fail_def ascii_strip_def ascii_isspace_def demo_outs1_def
  demo_outs2_def
  suffix_to_prefix

lemma demo_attempts1: "attempts demo_env ''dev'' demo_files 0 = (Inr demo_outs1, 3)"
  by (simp add: demo_simps)

lemma demo_attempts2:
  "attempts demo_env ''dev'' (retry_set demo_files demo_outs1) 3 = (Inr demo_outs2, 5)"
  by (simp add: demo_simps)

lemma demo_run: "run_screening demo_env ''dev'' demo_files 0 = (Inr demo_results, 5)"
proof -
  have "retry_set demo_files demo_outs1 \<noteq> []"
    by (simp add: demo_files_def demo_outs1_def)
  moreover have "parsed_of demo_outs1 @ map2 terminal (retry_set demo_files demo_outs1) demo_outs2
                   = demo_results"
    by (simp add: demo_files_def demo_outs1_def demo_outs2_def demo_results_def
                  parse_failed_verdict_def unreadable_verdict_def)
  ultimately show ?thesis
    by (simp add: run_screening_def pass1_attempts pass2_attempts demo_attempts1 demo_attempts2)
qed

lemma demo_retry_pos: "retry_pos demo_outs1 0 = 0" "retry_pos demo_outs1 2 = Suc 0"
  "length (parsed_of demo_outs1) = Suc 0"
  by (simp_all add: retry_pos_def demo_outs1_def)

theorem one_verdict_per_filename_witness:
  "run_screening demo_env ''dev'' demo_files 0 = (Inr demo_results, 5) \<and>
   distinct (map name demo_files) \<and>
   length demo_results = length demo_files \<and>
   length (filter (\<lambda>d. filename_of d = Some (JStr ''b.pdf'')) demo_results) = 1"
proof -
  have dist: "distinct (map name demo_files)" by (simp add: demo_files_def)
  have mem: "\<lparr>name = ''b.pdf'', stream = [''Bob: Java'']\<rparr> \<in> set demo_files"
    by (simp add: demo_files_def)
  from one_verdict_per_filename[OF demo_run] dist mem
  have "length demo_results = length demo_files"
    and "length (filter (\<lambda>d. filename_of d =
            Some (JStr (name \<lparr>name = ''b.pdf'', stream = [''Bob: Java'']\<rparr>))) demo_results) = 1"
    by blast+
  with demo_run dist show ?thesis by simp
qed

theorem twice_unparsed_terminal_verdict_witness:
  "extract_text demo_env \<lparr>name = ''b.pdf'', stream = [''Bob: Java'']\<rparr> 3 = (Inr ''Bob: Java'', 3) \<and>
   str_strip demo_env ''Bob: Java'' \<noteq> [] \<and>
   analyze_resume_with_llm demo_env ''dev'' ''Bob: Java'' 3 = (Inr ''Sorry again'', 4) \<and>
   json_loads demo_env ''Sorry again'' = Inl (Exn JSONDecodeError ''Expecting value'') \<and>
   pass2 demo_env ''dev'' [\<lparr>name = ''b.pdf'', stream = [''Bob: Java'']\<rparr>] [] 3 =
     (Inr [[(''filename'', JStr ''b.pdf''), (''weighted_average'', JInt 0), (''verdict'', JStr ''FAIL''),
      (''reasoning'', JStr ''Resume could not be parsed after two attempts.'')]], 4) \<and>
   attempts demo_env ''dev'' demo_files 0 = (Inr demo_outs1, 3) \<and>
   attempts demo_env ''dev'' (retry_set demo_files demo_outs1) 3 = (Inr demo_outs2, 5) \<and>
   demo_outs1 ! 0 = ParseFailed \<and> demo_outs2 ! retry_pos demo_outs1 0 = ParseFailed \<and>
   run_screening demo_env ''dev'' demo_files 0 = (Inr demo_results, 5) \<and>
   demo_results ! (length (parsed_of demo_outs1) + retry_pos demo_outs1 0) =
     [(''filename'', JStr ''b.pdf''), (''weighted_average'', JInt 0), (''verdict'', JStr ''FAIL''),
      (''reasoning'', JStr ''Resume could not be parsed after two attempts.'')]"
proof -
  have x: "extract_text demo_env \<lparr>name = ''b.pdf'', stream = [''Bob: Java'']\<rparr> 3 = (Inr ''Bob: Java'', 3)"
    by (simp add: demo_simps)
  have s: "str_strip demo_env ''Bob: Java'' \<noteq> []" by (simp add: demo_simps)
  have a: "analyze_resume_with_llm demo_env ''dev'' ''Bob: Java'' 3 = (Inr ''Sorry again'', 4)"
    by (simp add: demo_simps)
  have j: "json_loads demo_env ''Sorry again'' = Inl (Exn JSONDecodeError ''Expecting value'')"
    by (simp add: demo_simps)
  have k: "exn_kind (Exn JSONDecodeError ''Expecting value'') = JSONDecodeError" by simp
  note t = twice_unparsed_terminal_verdict[of demo_env "\<lparr>name = ''b.pdf'', stream = [''Bob: Java'']\<rparr>" 3 "''Bob: Java''" 3
             "''dev''" "''Sorry again''" 4 "Exn JSONDecodeError ''Expecting value''" "[]" "[]" "[]"
             demo_files 0 demo_outs1 3 demo_outs2 5]
  from t x s a j k have p: "pass2 demo_env ''dev'' [\<lparr>name = ''b.pdf'', stream = [''Bob: Java'']\<rparr>] [] 3 =
     (Inr [[(''filename'', JStr ''b.pdf''), (''weighted_average'', JInt 0), (''verdict'', JStr ''FAIL''),
      (''reasoning'', JStr ''Resume could not be parsed after two attempts.'')]], 4)"
    by simp
  have p1: "demo_outs1 ! 0 = ParseFailed" by (simp add: demo_outs1_def)
  have p2: "demo_outs2 ! retry_pos demo_outs1 0 = ParseFailed"
    by (simp add: demo_retry_pos demo_outs2_def)
  have n: "name (demo_files ! 0) = ''b.pdf''" "(0::nat) < length demo_files"
    by (simp_all add: demo_files_def)
  from t demo_attempts1 demo_attempts2 obtain results where
    r: "run_screening demo_env ''dev'' demo_files 0 = (Inr results, 5)" and
    h: "\<forall>i<length demo_files.
          demo_outs1 ! i = ParseFailed \<and> demo_outs2 ! retry_pos demo_outs1 i = ParseFailed \<longrightarrow>
            retry_set demo_files demo_outs1 ! retry_pos demo_outs1 i = demo_files ! i \<and>
            results ! (length (parsed_of demo_outs1) + retry_pos demo_outs1 i) =
              [(''filename'', JStr (name (demo_files ! i))), (''weighted_average'', JInt 0),
               (''verdict'', JStr ''FAIL''),
               (''reasoning'', JStr ''Resume could not be parsed after two attempts.'')]"
    by blast
  from r demo_run have e: "results = demo_results" by simp
  from h[rule_format, of 0] p1 p2 n
  have v: "demo_results ! (length (parsed_of demo_outs1) + retry_pos demo_outs1 0) =
     [(''filename'', JStr ''b.pdf''), (''weighted_average'', JInt 0), (''verdict'', JStr ''FAIL''),
      (''reasoning'', JStr ''Resume could not be parsed after two attempts.'')]"
    unfolding e by simp
  from x s a j p demo_attempts1 demo_attempts2 p1 p2 demo_run v show ?thesis by (intro conjI)
qed

theorem unreadable_twice_terminal_verdict_witness:
  "extract_text demo_env \<lparr>name = ''c.pdf'', stream = []\<rparr> 4 = (Inr [], 4) \<and>
   str_strip demo_env [] = [] \<and>
   pass1 demo_env ''dev'' [\<lparr>name = ''c.pdf'', stream = []\<rparr>] [] [] 4 = (Inr ([], [\<lparr>name = ''c.pdf'', stream = []\<rparr>]), 4) \<and>
   pass2 demo_env ''dev'' [\<lparr>name = ''c.pdf'', stream = []\<rparr>] [] 4 =
     (Inr [[(''filename'', JStr ''c.pdf''), (''weighted_average'', JInt 0), (''verdict'', JStr ''FAIL''),
      (''reasoning'', JStr ''Unreadable or empty resume text (after retry).'')]], 4) \<and>
   attempts demo_env ''dev'' demo_files 0 = (Inr demo_outs1, 3) \<and>
   attempts demo_env ''dev'' (retry_set demo_files demo_outs1) 3 = (Inr demo_outs2, 5) \<and>
   demo_outs1 ! 2 = Unreadable \<and> demo_outs2 ! retry_pos demo_outs1 2 = Unreadable \<and>
   retry_set demo_files demo_outs1 ! retry_pos demo_outs1 2 = demo_files ! 2 \<and>
   run_screening demo_env ''dev'' demo_files 0 = (Inr demo_results, 5) \<and>
   demo_results ! (length (parsed_of demo_outs1) + retry_pos demo_outs1 2) =
     [(''filename'', JStr ''c.pdf''), (''weighted_average'', JInt 0), (''verdict'', JStr ''FAIL''),
      (''reasoning'', JStr ''Unreadable or empty resume text (after retry).'')]"
proof -
  have x: "extract_text demo_env \<lparr>name = ''c.pdf'', stream = []\<rparr> 4 = (Inr [], 4)"
    by (simp add: demo_simps)
  have s: "str_strip demo_env [] = []" by (simp add: demo_simps)
  note t = unreadable_twice_terminal_verdict[of demo_env "\<lparr>name = ''c.pdf'', stream = []\<rparr>" 4 "[]" 4
             "''dev''" "[]" "[]" "[]" demo_files 0 demo_outs1 3 demo_outs2 5]
  from t x s have q: "pass1 demo_env ''dev'' [\<lparr>name = ''c.pdf'', stream = []\<rparr>] [] [] 4 = (Inr ([], [\<lparr>name = ''c.pdf'', stream = []\<rparr>]), 4)"
    and p: "pass2 demo_env ''dev'' [\<lparr>name = ''c.pdf'', stream = []\<rparr>] [] 4 =
     (Inr [[(''filename'', JStr ''c.pdf''), (''weighted_average'', JInt 0), (''verdict'', JStr ''FAIL''),
      (''reasoning'', JStr ''Unreadable or empty resume text (after retry).'')]], 4)"
    by simp_all
  have p1: "demo_outs1 ! 2 = Unreadable" by (simp add: demo_outs1_def)
  have p2: "demo_outs2 ! retry_pos demo_outs1 2 = Unreadable"
    by (simp add: demo_retry_pos demo_outs2_def)
  have n: "name (demo_files ! 2) = ''c.pdf''" "(2::nat) < length demo_files"
    by (simp_all add: demo_files_def)
  from t demo_attempts1 demo_attempts2 obtain results where
    r: "run_screening demo_env ''dev'' demo_files 0 = (Inr results, 5)" and
    h: "\<forall>i<length demo_files.
          demo_outs1 ! i = Unreadable \<and> demo_outs2 ! retry_pos demo_outs1 i = Unreadable \<longrightarrow>
            retry_pos demo_outs1 i < length (retry_set demo_files demo_outs1) \<and>
            retry_set demo_files demo_outs1 ! retry_pos demo_outs1 i = demo_files ! i \<and>
            results ! (length (parsed_of demo_outs1) + retry_pos demo_outs1 i) =
              [(''filename'', JStr (name (demo_files ! i))), (''weighted_average'', JInt 0),
               (''verdict'', JStr ''FAIL''),
               (''reasoning'', JStr ''Unreadable or empty resume text (after retry).'')]"
    by blast
  from r demo_run have e: "results = demo_results" by simp
  from h[rule_format, of 2] p1 p2 n
  have v: "retry_set demo_files demo_outs1 ! retry_pos demo_outs1 2 = demo_files ! 2"
    and u: "demo_results ! (length (parsed_of demo_outs1) + retry_pos demo_outs1 2) =
     [(''filename'', JStr ''c.pdf''), (''weighted_average'', JInt 0), (''verdict'', JStr ''FAIL''),
      (''reasoning'', JStr ''Unreadable or empty resume text (after retry).'')]"
    unfolding e by simp_all
  from x s q p demo_attempts1 demo_attempts2 p1 p2 v demo_run u show ?thesis by (intro conjI)
qed

text \<open>
  The reasoning recorded for a file that stays unreadable is not the bare text
  "Unreadable or empty resume text": a batch of one empty PDF shows the recorded string.
\<close>

theorem unreadable_reasoning_counterexample:
  "run_screening demo_env ''dev'' [\<lparr>name = ''c.pdf'', stream = []\<rparr>] 0 =
     (Inr [[(''filename'', JStr ''c.pdf''), (''weighted_average'', JInt 0), (''verdict'', JStr ''FAIL''),
      (''reasoning'', JStr ''Unreadable or empty resume text (after retry).'')]], 0) \<and>
   extract_text demo_env \<lparr>name = ''c.pdf'', stream = []\<rparr> 0 = (Inr [], 0) \<and>
   JStr ''Unreadable or empty resume text (after retry).'' \<noteq> JStr ''Unreadable or empty resume text''"
  by (simp add: run_screening_def demo_env_def extract_text_def extract_text_from_pdf_def
                ascii_strip_def unreadable_verdict_def suffix_to_prefix)

theorem results_in_terminal_order_witness:
  "attempts demo_env ''dev'' demo_files 0 = (Inr demo_outs1, 3) \<and>
   attempts demo_env ''dev'' (retry_set demo_files demo_outs1) 3 = (Inr demo_outs2, 5) \<and>
   run_screening demo_env ''dev'' demo_files 0 = (Inr demo_results, 5) \<and>
   map name demo_files = [''b.pdf'', ''a.pdf'', ''c.pdf'', ''d.docx''] \<and>
   map filename_of demo_results =
     [Some (JStr ''a.pdf''), Some (JStr ''b.pdf''), Some (JStr ''c.pdf''), Some (JStr ''d.docx'')]"
proof -
  note t = results_in_terminal_order[OF demo_attempts1 demo_attempts2]
  from t have r: "run_screening demo_env ''dev'' demo_files 0 =
      (Inr (parsed_of demo_outs1 @ map2 terminal (retry_set demo_files demo_outs1) demo_outs2), 5)"
    and f1: "map filename_of (parsed_of demo_outs1) =
           map (\<lambda>f. Some (JStr (name f)))
             (map fst (filter (\<lambda>(f, out). is_parsed out) (zip demo_files demo_outs1)))"
    and f2: "map filename_of (map2 terminal (retry_set demo_files demo_outs1) demo_outs2) =
           map (\<lambda>f. Some (JStr (name f))) (retry_set demo_files demo_outs1)"
    by blast+
  from r demo_run
  have e: "demo_results = parsed_of demo_outs1 @ map2 terminal (retry_set demo_files demo_outs1) demo_outs2"
    by simp
  have "map filename_of demo_results =
          map filename_of (parsed_of demo_outs1) @
          map filename_of (map2 terminal (retry_set demo_files demo_outs1) demo_outs2)"
    by (subst e) (simp only: map_append)
  also have "\<dots> = [Some (JStr ''a.pdf''), Some (JStr ''b.pdf''), Some (JStr ''c.pdf''), Some (JStr ''d.docx'')]"
    by (simp only: f1 f2) (simp add: demo_files_def demo_outs1_def)
  finally have m: "map filename_of demo_results =
     [Some (JStr ''a.pdf''), Some (JStr ''b.pdf''), Some (JStr ''c.pdf''), Some (JStr ''d.docx'')]" .
  have nm: "map name demo_files = [''b.pdf'', ''a.pdf'', ''c.pdf'', ''d.docx'']"
    by (simp add: demo_files_def)
  from demo_attempts1 demo_attempts2 demo_run nm m show ?thesis by (intro conjI)
qed

section \<open>Properties of the evaluator\<close>

text \<open>
  Claim C2, as amended. If the responses call raises an error that is not a TypeError, the
  evaluator returns the serialised FAIL verdict with weighted_average 0 and the reasoning
  "Error: " followed by the error's text. If it raises a TypeError, the evaluator makes
  the chat call and returns its text when that call succeeds. If the responses call
  succeeds, its text is returned. In these three cases the evaluator returns a string.
\<close>

theorem evaluator_failure_handling:
  "(responses_create env (responses_request role resume_text) w = (Inr out, w1) \<longrightarrow>
      analyze_resume_with_llm env role resume_text w = (Inr out, w1)) \<and>
   (responses_create env (responses_request role resume_text) w = (Inl e, w1) \<and>
    exn_kind e \<noteq> TypeError \<longrightarrow>
      analyze_resume_with_llm env role resume_text w =
        (Inr (json_dumps env
               (JObj [(''weighted_average'', JInt 0), (''verdict'', JStr ''FAIL''),
                      (''reasoning'', JStr (''Error: '' @ exn_str e))])), w1)) \<and>
   (responses_create env (responses_request role resume_text) w = (Inl e, w1) \<and>
    exn_kind e = TypeError \<and>
    chat_completions_create env (chat_request role resume_text) w1 = (Inr content, w2) \<longrightarrow>
      analyze_resume_with_llm env role resume_text w = (Inr content, w2))"
  by (simp add: analyze_resume_with_llm_def error_verdict_def)

theorem evaluator_failure_handling_witness:
  "responses_create demo_env (responses_request ''dev'' ''Bob: Java'') 5 =
     (Inl (Exn (OtherError ''RateLimitError'') ''quota exceeded''), 6) \<and>
   exn_kind (Exn (OtherError ''RateLimitError'') ''quota exceeded'') \<noteq> TypeError \<and>
   analyze_resume_with_llm demo_env ''dev'' ''Bob: Java'' 5 = (Inr demo_quota_fail, 6) \<and>
   responses_create legacy_env (responses_request ''dev'' ''Bob: Java'') 0 =
     (Inl (Exn TypeError ''create() got an unexpected keyword argument response_format''), 0) \<and>
   chat_completions_create legacy_env (chat_request ''dev'' ''Bob: Java'') 0 = (Inr demo_good_a, 1) \<and>
   analyze_resume_with_llm legacy_env ''dev'' ''Bob: Java'' 0 = (Inr demo_good_a, 1) \<and>
   responses_create demo_env (responses_request ''dev'' ''Bob: Java'') 1 = (Inr demo_good_a, 2) \<and>
   analyze_resume_with_llm demo_env ''dev'' ''Bob: Java'' 1 = (Inr demo_good_a, 2)"
proof -
  have h1: "responses_create demo_env (responses_request ''dev'' ''Bob: Java'') 5 =
     (Inl (Exn (OtherError ''RateLimitError'') ''quota exceeded''), 6)"
    by (simp add: demo_env_def demo_replies_def)
  have k1: "exn_kind (Exn (OtherError ''RateLimitError'') ''quota exceeded'') \<noteq> TypeError"
    by simp
  have d: "json_dumps demo_env
             (JObj [(''weighted_average'', JInt 0), (''verdict'', JStr ''FAIL''),
                    (''reasoning'', JStr (''Error: '' @ ''quota exceeded''))]) = demo_quota_fail"
    by (simp add: demo_env_def demo_dumps_def error_verdict_def)
  have h2: "responses_create legacy_env (responses_request ''dev'' ''Bob: Java'') 0 =
     (Inl (Exn TypeError ''create() got an unexpected keyword argument response_format''), 0)"
    by (simp add: legacy_env_def)
  have h3: "chat_completions_create legacy_env (chat_request ''dev'' ''Bob: Java'') 0 = (Inr demo_good_a, 1)"
    by (simp add: legacy_env_def)
  have h4: "responses_create demo_env (responses_request ''dev'' ''Bob: Java'') 1 = (Inr demo_good_a, 2)"
    by (simp add: demo_env_def demo_replies_def)
  from evaluator_failure_handling[of demo_env "''dev''" "''Bob: Java''" 5 _ 6
         "Exn (OtherError ''RateLimitError'') ''quota exceeded''"] h1 k1 d
  have c1: "analyze_resume_with_llm demo_env ''dev'' ''Bob: Java'' 5 = (Inr demo_quota_fail, 6)"
    by simp
  from evaluator_failure_handling[of legacy_env "''dev''" "''Bob: Java''" 0 _ 0
         "Exn TypeError ''create() got an unexpected keyword argument response_format''"
         demo_good_a 1] h2 h3
  have c2: "analyze_resume_with_llm legacy_env ''dev'' ''Bob: Java'' 0 = (Inr demo_good_a, 1)"
    by simp
  from evaluator_failure_handling[of demo_env "''dev''" "''Bob: Java''" 1 demo_good_a 2] h4
  have c3: "analyze_resume_with_llm demo_env ''dev'' ''Bob: Java'' 1 = (Inr demo_good_a, 2)"
    by simp
  from h1 k1 c1 h2 h3 c2 h4 c3 show ?thesis by (intro conjI)
qed

text \<open>
  With the legacy client the responses call raises, and the evaluator does not return the
  FAIL verdict: it returns the chat call's text, and when the chat call raises as well,
  so does the evaluator.
\<close>

theorem evaluator_raises_counterexample:
  "responses_create legacy_env (responses_request ''dev'' ''Bob: Java'') 1 =
     (Inl (Exn TypeError ''create() got an unexpected keyword argument response_format''), 1) \<and>
   analyze_resume_with_llm legacy_env ''dev'' ''Bob: Java'' 1 =
     (Inl (Exn (OtherError ''APIConnectionError'') ''Connection error.''), 2) \<and>
   analyze_resume_with_llm legacy_env ''dev'' ''Bob: Java'' 0 = (Inr demo_good_a, 1)"
  by (simp add: legacy_env_def analyze_resume_with_llm_def)

text \<open>
  Claim C5. The evaluator behaves on a resume text as on its first 8000 characters: both
  requests it can send are built from the truncated text, whose length bounds the user
  message.
\<close>

theorem evaluator_truncates_resume:
  "analyze_resume_with_llm env role resume_text w =
     analyze_resume_with_llm env role (take 8000 resume_text) w \<and>
   responses_request role resume_text = responses_request role (take 8000 resume_text) \<and>
   chat_request role resume_text = chat_request role (take 8000 resume_text) \<and>
   user_content role resume_text = prompt role @ ''\<newline>Resume:\<newline>'' @ take 8000 resume_text \<and>
   length (user_content role resume_text) \<le> length (prompt role) + 9 + 8000"
proof -
  have u: "user_content role resume_text = user_content role (take 8000 resume_text)"
    by (simp add: user_content_def)
  have r: "responses_request role resume_text = responses_request role (take 8000 resume_text)"
    by (simp add: responses_request_def llm_messages_def u)
  have c: "chat_request role resume_text = chat_request role (take 8000 resume_text)"
    by (simp add: chat_request_def llm_messages_def u)
  have a: "analyze_resume_with_llm env role resume_text w =
             analyze_resume_with_llm env role (take 8000 resume_text) w"
    by (simp only: analyze_resume_with_llm_def r c)
  have l: "length (user_content role resume_text) \<le> length (prompt role) + 9 + 8000"
    by (simp add: user_content_def)
  from a r c l show ?thesis by (simp add: user_content_def)
qed

theorem evaluator_truncates_resume_witness:
  "responses_request ''dev'' (replicate 8000 CHR ''x'' @ ''IGNORED'') =
     responses_request ''dev'' (replicate 8000 CHR ''x'') \<and>
   analyze_resume_with_llm demo_env ''dev'' (replicate 8000 CHR ''x'' @ ''IGNORED'') 0 =
     analyze_resume_with_llm demo_env ''dev'' (replicate 8000 CHR ''x'') 0"
  using evaluator_truncates_resume[of demo_env "''dev''" "replicate 8000 CHR ''x'' @ ''IGNORED''" 0]
  by simp

section \<open>Properties of the guardrail and the router\<close>

lemma map_eq_append3:
  assumes "map f t = ps' @ v' @ ss'"
  shows "\<exists>ps u ss. t = ps @ u @ ss \<and> map f u = v'"
proof -
  let ?ps = "take (length ps') t"
  let ?u = "take (length v') (drop (length ps') t)"
  let ?ss = "drop (length v') (drop (length ps') t)"
  have "?u @ ?ss = drop (length ps') t" by (rule append_take_drop_id)
  then have "?ps @ ?u @ ?ss = t" by (simp only: append_take_drop_id)
  then have "t = ?ps @ ?u @ ?ss" by (rule sym)
  moreover have "map f ?u = take (length v') (drop (length ps') (map f t))"
    by (simp add: take_map drop_map)
  then have "map f ?u = v'" by (simp add: assms)
  ultimately show ?thesis by blast
qed

lemma sublist_ascii_lower_iff:
  "sublist (ascii_lower v) (ascii_lower t) \<longleftrightarrow> ascii_occurs_ignoring_case v t"
proof
  assume "sublist (ascii_lower v) (ascii_lower t)"
  then obtain ps' ss' where "map ascii_lower_char t = ps' @ map ascii_lower_char v @ ss'"
    by (auto simp: sublist_def ascii_lower_def)
  from map_eq_append3[OF this]
  show "ascii_occurs_ignoring_case v t"
    by (simp add: ascii_lower_def ascii_occurs_ignoring_case_def)
next
  assume "ascii_occurs_ignoring_case v t"
  then obtain ps u ss where "t = ps @ u @ ss" and "ascii_lower u = ascii_lower v"
    unfolding ascii_occurs_ignoring_case_def by blast
  then have "ascii_lower t = ascii_lower ps @ ascii_lower v @ ascii_lower ss"
    by (simp add: ascii_lower_def)
  then show "sublist (ascii_lower v) (ascii_lower t)"
    unfolding sublist_def by blast
qed

lemma sanitize_loop_eq:
  "sanitize_loop P ws t =
     (if \<exists>v\<in>set ws. occurs_ignoring_case (str_lower P) v t then Inl (Exn ValueError unsafe_msg)
      else Inr (str_strip P t))"
  by (induction ws) (auto simp: str_in_def sublist_def occurs_ignoring_case_def)

lemma banned_ascii: "\<forall>v\<in>set banned. list_all is_ascii v"
  by (simp add: banned_def is_ascii_def)

text \<open>
  Claim C9. \<open>sanitize_input\<close> raises the ValueError exactly when one of the seven banned
  words occurs in the text case-insensitively (the lower-cased word is a block of the
  lower-cased text), and returns the stripped text otherwise. Pressing Submit sets a mode
  only from the lower-cased result of \<open>sanitize_input\<close>; a non-blank query with a banned
  word stops with the error. On ASCII text the occurrence is that of a block equal to the
  word up to the case of the letters, and the result is the text without its ASCII
  whitespace at both ends.
\<close>

theorem sanitize_input_guard:
  "sanitize_input P t =
     (if \<exists>v\<in>{''delete'', ''drop'', ''sudo'', ''hack'', ''rm -rf'', ''password'', ''api_key''}.
           occurs_ignoring_case (str_lower P) v t
      then Inl (Exn ValueError unsafe_msg) else Inr (str_strip P t)) \<and>
   (\<forall>m. submit P t = SetMode m \<longrightarrow>
        sanitize_input P t = Inr (str_strip P t) \<and> m = route (str_lower P (str_strip P t))) \<and>
   (str_strip P t \<noteq> [] \<and> sanitize_input P t = Inl (Exn ValueError unsafe_msg) \<longrightarrow>
        submit P t = StopError unsafe_msg) \<and>
   (ascii_faithful P \<and> list_all is_ascii t \<longrightarrow>
        str_strip P t = ascii_strip t \<and>
        (\<forall>v\<in>{''delete'', ''drop'', ''sudo'', ''hack'', ''rm -rf'', ''password'', ''api_key''}.
           occurs_ignoring_case (str_lower P) v t \<longleftrightarrow> ascii_occurs_ignoring_case v t))"
proof -
  have b: "set banned = {''delete'', ''drop'', ''sudo'', ''hack'', ''rm -rf'', ''password'', ''api_key''}"
    by (simp add: banned_def)
  have s: "sanitize_input P t =
     (if \<exists>v\<in>{''delete'', ''drop'', ''sudo'', ''hack'', ''rm -rf'', ''password'', ''api_key''}.
           occurs_ignoring_case (str_lower P) v t
      then Inl (Exn ValueError unsafe_msg) else Inr (str_strip P t))"
    unfolding sanitize_input_def sanitize_loop_eq b ..
  have r: "sanitize_input P t = Inr (str_strip P t) \<and> m = route (str_lower P (str_strip P t))"
    if "submit P t = SetMode m" for m
    using that s by (auto simp: submit_def split: if_splits sum.splits)
  have e: "submit P t = StopError unsafe_msg"
    if "str_strip P t \<noteq> []" and "sanitize_input P t = Inl (Exn ValueError unsafe_msg)"
    using that by (simp add: submit_def)
  have a: "str_strip P t = ascii_strip t \<and>
        (\<forall>v\<in>{''delete'', ''drop'', ''sudo'', ''hack'', ''rm -rf'', ''password'', ''api_key''}.
           occurs_ignoring_case (str_lower P) v t \<longleftrightarrow> ascii_occurs_ignoring_case v t)"
    if f: "ascii_faithful P" and t: "list_all is_ascii t"
  proof -
    from f t have lt: "str_lower P t = ascii_lower t" and st: "str_strip P t = ascii_strip t"
      by (simp_all add: ascii_faithful_def)
    have "occurs_ignoring_case (str_lower P) v t \<longleftrightarrow> ascii_occurs_ignoring_case v t"
      if "v \<in> set banned" for v
    proof -
      from that banned_ascii f have "str_lower P v = ascii_lower v"
        by (simp add: ascii_faithful_def)
      with lt show ?thesis
        using sublist_ascii_lower_iff[of v t] by (simp add: occurs_ignoring_case_def sublist_def)
    qed
    then have "\<forall>v\<in>set banned. occurs_ignoring_case (str_lower P) v t \<longleftrightarrow> ascii_occurs_ignoring_case v t"
      by blast
    with st show ?thesis unfolding b by (intro conjI)
  qed
  have r': "\<forall>m. submit P t = SetMode m \<longrightarrow>
        sanitize_input P t = Inr (str_strip P t) \<and> m = route (str_lower P (str_strip P t))"
    using r by blast
  have e': "str_strip P t \<noteq> [] \<and> sanitize_input P t = Inl (Exn ValueError unsafe_msg) \<longrightarrow>
        submit P t = StopError unsafe_msg"
    by (rule impI, erule conjE, rule e)
  have a': "ascii_faithful P \<and> list_all is_ascii t \<longrightarrow>
        str_strip P t = ascii_strip t \<and>
        (\<forall>v\<in>{''delete'', ''drop'', ''sudo'', ''hack'', ''rm -rf'', ''password'', ''api_key''}.
           occurs_ignoring_case (str_lower P) v t \<longleftrightarrow> ascii_occurs_ignoring_case v t)"
    by (rule impI, erule conjE, rule a)
  from s r' e' a' show ?thesis by (intro conjI)
qed

theorem sanitize_input_guard_witness:
  "occurs_ignoring_case (str_lower ascii_ops) ''drop'' ''Please DROP the table'' \<and>
   sanitize_input ascii_ops ''Please DROP the table'' = Inl (Exn ValueError unsafe_msg) \<and>
   submit ascii_ops ''Please DROP the table'' = StopError unsafe_msg \<and>
   submit ascii_ops ''  Screen resumes  '' = SetMode Resume \<and>
   sanitize_input ascii_ops ''  Screen resumes  '' = Inr ''Screen resumes'' \<and>
   ascii_faithful ascii_ops \<and> list_all is_ascii ''Please DROP the table'' \<and>
   ascii_occurs_ignoring_case ''drop'' ''Please DROP the table''"
proof -
  have "str_lower ascii_ops ''Please DROP the table'' =
          ''please '' @ str_lower ascii_ops ''drop'' @ '' the table''"
    by (simp add: str_eval)
  then have o: "occurs_ignoring_case (str_lower ascii_ops) ''drop'' ''Please DROP the table''"
    unfolding occurs_ignoring_case_def by blast
  have ne: "str_strip ascii_ops ''Please DROP the table'' \<noteq> []"
    by (simp add: str_eval)
  have m: "submit ascii_ops ''  Screen resumes  '' = SetMode Resume"
    by (simp add: submit_def sanitize_input_def banned_def str_in_def str_eval sublist_code
                  route_def any_in_def)
  have st: "str_strip ascii_ops ''  Screen resumes  '' = ''Screen resumes''"
    by (simp add: str_eval)
  have f: "ascii_faithful ascii_ops" by (simp add: ascii_faithful_def ascii_ops_def)
  have t: "list_all is_ascii ''Please DROP the table''" by (simp add: is_ascii_def)
  note g1 = sanitize_input_guard[of ascii_ops "''Please DROP the table''"]
  note g2 = sanitize_input_guard[of ascii_ops "''  Screen resumes  ''"]
  from g1 o have a: "sanitize_input ascii_ops ''Please DROP the table'' = Inl (Exn ValueError unsafe_msg)"
    by auto
  from g1 a ne have b: "submit ascii_ops ''Please DROP the table'' = StopError unsafe_msg"
    by blast
  from g2 m have "sanitize_input ascii_ops ''  Screen resumes  '' =
                    Inr (str_strip ascii_ops ''  Screen resumes  '')"
    by blast
  with st have c: "sanitize_input ascii_ops ''  Screen resumes  '' = Inr ''Screen resumes''" by simp
  from g1 f t o have d: "ascii_occurs_ignoring_case ''drop'' ''Please DROP the table''"
    by blast
  from o a b m c f t d show ?thesis by (intro conjI)
qed

section \<open>Properties of the exporter's sort\<close>

lemma sorted_desc_sort_key:
  "sorted_wrt (\<lambda>a b. a \<ge> b) (map k (sort_key (\<lambda>d. - k d) (xs :: 'a list)))"
  for k :: "'a \<Rightarrow> rat"
proof -
  have "sorted (map (\<lambda>d. - k d) (sort_key (\<lambda>d. - k d) xs))" by (rule sorted_sort_key)
  then show ?thesis by (simp add: sorted_wrt_map)
qed

text \<open>
  Claim C7. Sorting a result set whose rows all carry a numeric weighted_average gives
  the same rows with non-increasing weighted averages; a result set with the weighted
  averages 3.2, 9.1, 6.0 comes out in the order 9.1, 6.0, 3.2.
\<close>

theorem sort_by_weighted_average_descending:
  "(sort_by_weighted_average results = Some sorted_rows \<longrightarrow>
      sorted_wrt (\<lambda>a b. a \<ge> b) (map (\<lambda>d. the (weighted_average_of d)) sorted_rows) \<and>
      mset sorted_rows = mset results) \<and>
   ((\<forall>d\<in>set results. weighted_average_of d \<noteq> None) \<longrightarrow>
      sort_by_weighted_average results \<noteq> None) \<and>
   (map weighted_average_of results = [Some (16 / 5), Some (91 / 10), Some 6] \<longrightarrow>
      (\<exists>sorted_rows. sort_by_weighted_average results = Some sorted_rows \<and>
         map weighted_average_of sorted_rows = [Some (91 / 10), Some 6, Some (16 / 5)]))"
proof -
  have a: "sorted_wrt (\<lambda>a b. a \<ge> b) (map (\<lambda>d. the (weighted_average_of d)) sorted_rows) \<and>
           mset sorted_rows = mset results"
    if "sort_by_weighted_average results = Some sorted_rows"
  proof -
    from that have "sorted_rows = sort_key (\<lambda>d. - the (weighted_average_of d)) results"
      by (simp add: sort_by_weighted_average_def split: if_splits)
    then show ?thesis
      using sorted_desc_sort_key[of "\<lambda>d. the (weighted_average_of d)" results] by simp
  qed
  have b: "sort_by_weighted_average results \<noteq> None"
    if "\<forall>d\<in>set results. weighted_average_of d \<noteq> None"
    using that by (simp add: sort_by_weighted_average_def list_all_iff)
  have c: "\<exists>sorted_rows. sort_by_weighted_average results = Some sorted_rows \<and>
             map weighted_average_of sorted_rows = [Some (91 / 10), Some 6, Some (16 / 5)]"
    if m: "map weighted_average_of results = [Some (16 / 5), Some (91 / 10), Some 6]"
  proof -
    from m obtain x y z where r: "results = [x, y, z]"
      and k: "weighted_average_of x = Some (16 / 5)" "weighted_average_of y = Some (91 / 10)"
             "weighted_average_of z = Some 6"
      by (auto simp: map_eq_Cons_conv)
    have "sort_by_weighted_average results = Some [y, z, x]"
      by (simp add: r k sort_by_weighted_average_def del: not_None_eq)
    with k show ?thesis by simp
  qed
  from a b c show ?thesis by blast
qed

theorem sort_by_weighted_average_descending_witness:
  "sort_by_weighted_average demo_scores = Some [demo_scores ! 1, demo_scores ! 2, demo_scores ! 0] \<and>
   map weighted_average_of demo_scores = [Some (16 / 5), Some (91 / 10), Some 6] \<and>
   sorted_wrt (\<lambda>a b. a \<ge> b)
     (map (\<lambda>d. the (weighted_average_of d)) [demo_scores ! 1, demo_scores ! 2, demo_scores ! 0]) \<and>
   map weighted_average_of [demo_scores ! 1, demo_scores ! 2, demo_scores ! 0] =
     [Some (91 / 10), Some 6, Some (16 / 5)]"
proof -
  have m: "map weighted_average_of demo_scores = [Some (16 / 5), Some (91 / 10), Some 6]"
    by (simp add: demo_scores_def weighted_average_of_def)
  have s: "sort_by_weighted_average demo_scores = Some [demo_scores ! 1, demo_scores ! 2, demo_scores ! 0]"
    by (simp add: demo_scores_def weighted_average_of_def sort_by_weighted_average_def
             del: not_None_eq)
  note t = sort_by_weighted_average_descending[of demo_scores
             "[demo_scores ! 1, demo_scores ! 2, demo_scores ! 0]"]
  from t s have d: "sorted_wrt (\<lambda>a b. a \<ge> b)
     (map (\<lambda>d. the (weighted_average_of d)) [demo_scores ! 1, demo_scores ! 2, demo_scores ! 0])"
    by blast
  from t m s have e: "map weighted_average_of [demo_scores ! 1, demo_scores ! 2, demo_scores ! 0] =
     [Some (91 / 10), Some 6, Some (16 / 5)]"
    by auto
  from s m d e show ?thesis by (intro conjI)
qed

section \<open>Properties of the bulk upload\<close>

lemma ascii_is_pass_iff:
  assumes "ascii_faithful P" and "list_all is_ascii s"
  shows "is_pass_ignoring_case (str_upper P) s \<longleftrightarrow> ascii_equals_ignoring_case s ''PASS''"
proof -
  from assms have "str_upper P s = ascii_upper s" by (simp add: ascii_faithful_def)
  then show ?thesis by (simp add: is_pass_ignoring_case_def upper_PASS_iff)
qed

text \<open>
  Claim C8. When the table has a \<open>verdict\<close> column, the rows selected for notification
  are exactly the rows whose verdict cell, converted to a string, equals "PASS"
  case-insensitively (its upper-casing is "PASS"), in the table's order. A table without
  that column is rejected with the error message and selects no row. For an ASCII string
  the test is equality with "PASS" up to the case of the letters.
\<close>

theorem bulk_upload_selects_pass:
  "(''verdict'' \<in> set (columns df) \<longrightarrow>
      selected_rows (bulk_upload P astype_str (Inr df)) =
        filter (\<lambda>row. is_pass_ignoring_case (str_upper P) (astype_str (row ''verdict''))) (rows df)) \<and>
   (''verdict'' \<notin> set (columns df) \<longrightarrow>
      bulk_upload P astype_str (Inr df) = BulkError missing_verdict_msg \<and>
      selected_rows (bulk_upload P astype_str (Inr df)) = []) \<and>
   (ascii_faithful P \<and> list_all is_ascii s \<longrightarrow>
      (is_pass_ignoring_case (str_upper P) s \<longleftrightarrow> ascii_equals_ignoring_case s ''PASS''))"
  using ascii_is_pass_iff[of P s]
  by (simp add: bulk_upload_def Let_def is_pass_ignoring_case_def)

theorem bulk_upload_selects_pass_witness:
  "''verdict'' \<in> set (columns demo_table) \<and>
   selected_rows (bulk_upload ascii_ops demo_astype_str (Inr demo_table)) =
     [demo_row ''a.pdf'' (Some ''PASS''), demo_row ''d.docx'' (Some ''Pass'')] \<and>
   ''verdict'' \<notin> set (columns demo_table_no_verdict) \<and>
   bulk_upload ascii_ops demo_astype_str (Inr demo_table_no_verdict) = BulkError missing_verdict_msg \<and>
   selected_rows (bulk_upload ascii_ops demo_astype_str (Inr demo_table_no_verdict)) = [] \<and>
   ascii_faithful ascii_ops \<and> list_all is_ascii ''Pass'' \<and>
   ascii_equals_ignoring_case ''Pass'' ''PASS''"
proof -
  have c1: "''verdict'' \<in> set (columns demo_table)" by (simp add: demo_table_def)
  have c2: "''verdict'' \<notin> set (columns demo_table_no_verdict)"
    by (simp add: demo_table_no_verdict_def)
  have f: "filter (\<lambda>row. is_pass_ignoring_case (str_upper ascii_ops) (demo_astype_str (row ''verdict'')))
             (rows demo_table) =
           [demo_row ''a.pdf'' (Some ''PASS''), demo_row ''d.docx'' (Some ''Pass'')]"
    by (simp add: demo_table_def demo_row_def demo_astype_str_def is_pass_ignoring_case_def str_eval)
  have af: "ascii_faithful ascii_ops" by (simp add: ascii_faithful_def ascii_ops_def)
  have as: "list_all is_ascii ''Pass''" by (simp add: is_ascii_def)
  have up: "is_pass_ignoring_case (str_upper ascii_ops) ''Pass''"
    by (simp add: is_pass_ignoring_case_def str_eval)
  note t1 = bulk_upload_selects_pass[of demo_table ascii_ops demo_astype_str "''Pass''"]
  note t2 = bulk_upload_selects_pass[of demo_table_no_verdict ascii_ops demo_astype_str "''Pass''"]
  from t1 c1 f
  have s1: "selected_rows (bulk_upload ascii_ops demo_astype_str (Inr demo_table)) =
     [demo_row ''a.pdf'' (Some ''PASS''), demo_row ''d.docx'' (Some ''Pass'')]"
    by simp
  from t2 c2
  have s2: "bulk_upload ascii_ops demo_astype_str (Inr demo_table_no_verdict) = BulkError missing_verdict_msg"
    and s3: "selected_rows (bulk_upload ascii_ops demo_astype_str (Inr demo_table_no_verdict)) = []"
    by blast+
  from t1 af as up have eq: "ascii_equals_ignoring_case ''Pass'' ''PASS''" by blast
  from c1 s1 c2 s2 s3 af as eq show ?thesis by (intro conjI)
qed

section \<open>Lemmas on the onboarding loop\<close>




text \<open>An item that is not a dict makes the function raise: the handler calls \<open>get\<close> again.\<close>

lemma onboard_non_dict_raises:
  "onboard_selected_candidates env opts [JArr xs] w =
     (Inl (Exn AttributeError ''object has no attribute get''), w)"
  by (simp add: onboard_selected_candidates_def try_item_def bnd_def lift_def)

section \<open>Properties of the onboarding step\<close>




end
